theory Spec2Isabelle
  imports Complex_Main "HOL-Library.While_Combinator" "HOL-Library.List_Lexorder"
begin

section \<open>Room identification: data model\<close>

text \<open>
  The program under study is \<open>backend/identify_rooms.py\<close>. Coordinates are Python floats;
  they are idealised here as real numbers. A point is a pair \<open>(x, y)\<close>, a segment a pair
  of points, and a segment index is a position in the list of segments. A character of a
  string is a code point below 256.
\<close>

type_synonym point = "real \<times> real"
type_synonym segment = "point \<times> point"

datatype error = ValueError | IndexError | KeyError | ParseError | UnicodeEncodeError

text \<open>
  An element of the tree that \<^verbatim>\<open>xml.etree.ElementTree\<close> builds: its tag, its attribute
  dictionary and its children.
\<close>

datatype element = Element (tag: string) (attrib: "(string \<times> string) list") (children: "element list")

text \<open>
  What the source reads of a Shapely polygon, and a room \<^verbatim>\<open>{"bbox": [x, y, w, h]}\<close>.
\<close>

record polygon =
  is_valid :: bool
  area :: real
  bounds :: "real \<times> real \<times> real \<times> real"

record room =
  bbox :: "real \<times> real \<times> real \<times> real"

text \<open>
  A Python \<open>set\<close> or \<open>frozenset\<close> is iterated in the order of its hash table. That order is
  a parameter: \<open>iter_idx\<close> lists a set of segment indices (also \<open>tuple(pair)\<close> of a
  frozenset), \<open>iter_pairs\<close> lists the set of stripe pairs.
\<close>

record hash_order =
  iter_idx :: "nat set \<Rightarrow> nat list"
  iter_pairs :: "nat set set \<Rightarrow> nat set list"

text \<open>
  The library code the program calls is a parameter of the model:
  \<^item> \<open>lib_fromstring\<close> is \<^verbatim>\<open>ET.fromstring\<close>: the tree, or the exception it raises
    (\<open>ParseError\<close> on a document that is not well-formed, \<open>UnicodeEncodeError\<close> on a
    string with a lone surrogate);
  \<^item> \<open>lib_float\<close> is \<^verbatim>\<open>float\<close> on a string, \<open>None\<close> when it raises \<open>ValueError\<close>;
  \<^item> \<open>lib_findall\<close> is \<^verbatim>\<open>re.findall\<close> with the pattern of the \<open>path\<close> branch;
  \<^item> \<open>lib_seed\<close> and \<open>lib_random\<close> are \<^verbatim>\<open>random.seed\<close> and \<^verbatim>\<open>random.random\<close> on the
    state \<open>'g\<close> of the module's global generator;
  \<^item> \<open>lib_order\<close> is the iteration order of hash sets;
  \<^item> \<open>lib_svd\<close> is \<^verbatim>\<open>np.linalg.svd(M)[2][0]\<close>, the first right-singular vector of the
    matrix whose rows are the given points;
  \<^item> \<open>lib_polygonize\<close> is \<^verbatim>\<open>shapely.ops.polygonize\<close> on two-point line strings, \<open>None\<close>
    when the import of Shapely raises \<open>ImportError\<close> or \<open>OSError\<close>.
\<close>

record 'g library =
  lib_fromstring :: "string \<Rightarrow> error + element"
  lib_float :: "string \<Rightarrow> real option"
  lib_findall :: "string \<Rightarrow> (string \<times> string) list"
  lib_seed :: "int \<Rightarrow> 'g"
  lib_random :: "'g \<Rightarrow> real \<times> 'g"
  lib_order :: hash_order
  lib_svd :: "point list \<Rightarrow> point"
  lib_polygonize :: "(segment list \<Rightarrow> polygon list) option"

subsection \<open>Reader: thick polylines of the SVG\<close>

text \<open>\<^verbatim>\<open>root.iter()\<close>: the element and its descendants, in document order.\<close>

fun iter :: "element \<Rightarrow> element list" where
  "iter (Element t a cs) = Element t a cs # concat (map iter cs)"

text \<open>
  \<^verbatim>\<open>s.split(sep, 1)\<close> at the first occurrence of a non-empty separator: the text before
  and the text after it, \<open>None\<close> when \<open>sep\<close> does not occur in \<open>s\<close>.
\<close>

fun split_once :: "string \<Rightarrow> string \<Rightarrow> (string \<times> string) option" where
  "split_once sep [] = None"
| "split_once sep (c # cs) =
     (if take (length sep) (c # cs) = sep then Some ([], drop (length sep) (c # cs))
      else map_option (\<lambda>(before, after). (c # before, after)) (split_once sep cs))"

text \<open>\<^verbatim>\<open>tag.split("}", 1)[-1]\<close>\<close>

definition strip_ns :: "string \<Rightarrow> string" where
  "strip_ns t = (case split_once ''}'' t of None \<Rightarrow> t | Some (before, after) \<Rightarrow> after)"

text \<open>\<^verbatim>\<open>el.attrib.get(key)\<close>\<close>

definition attrib_get :: "element \<Rightarrow> string \<Rightarrow> string option" where
  "attrib_get el key = map_of (attrib el) key"

text \<open>
  The text from which the stroke width is read. \<open>a or b\<close> is \<open>b\<close> when \<open>a\<close> is missing or
  empty. The \<open>IndexError\<close> of a missing colon is caught and gives the text \<open>1\<close>.
\<close>

definition sw_txt :: "element \<Rightarrow> string" where
  "sw_txt el =
     (let style = (case attrib_get el ''style'' of None \<Rightarrow> [] | Some st \<Rightarrow> st);
          txt = (case attrib_get el ''stroke-width'' of
                   None \<Rightarrow> style
                 | Some w \<Rightarrow> if w = [] then style else w)
      in case split_once ''stroke-width'' txt of
           None \<Rightarrow> txt
         | Some (before, after) \<Rightarrow>
             (case split_once '':'' after of
                None \<Rightarrow> ''1''
              | Some (b1, a1) \<Rightarrow>
                  (case split_once '';'' a1 of None \<Rightarrow> a1 | Some (b2, a2) \<Rightarrow> b2)))"

text \<open>\<^verbatim>\<open>stroke_w = float(sw_txt or 1.0)\<close>; the \<open>ValueError\<close> of \<open>float\<close> is not caught.\<close>

definition stroke_w :: "'g library \<Rightarrow> element \<Rightarrow> error + real" where
  "stroke_w lib el =
     (if sw_txt el = [] then Inr 1
      else case lib_float lib (sw_txt el) of None \<Rightarrow> Inl ValueError | Some w \<Rightarrow> Inr w)"

text \<open>\<^verbatim>\<open>list(map(float, raw_pts))\<close>\<close>

fun floats :: "'g library \<Rightarrow> string list \<Rightarrow> error + real list" where
  "floats lib [] = Inr []"
| "floats lib (t # ts) =
     (case lib_float lib t of
        None \<Rightarrow> Inl ValueError
      | Some x \<Rightarrow> (case floats lib ts of Inl e \<Rightarrow> Inl e | Inr xs \<Rightarrow> Inr (x # xs)))"

text \<open>\<^verbatim>\<open>zip(pts[0::2], pts[1::2])\<close>\<close>

fun pair_up :: "real list \<Rightarrow> point list" where
  "pair_up (x # y # rest) = (x, y) # pair_up rest"
| "pair_up _ = []"

text \<open>
  \<^verbatim>\<open>s.replace(",", " ").split()\<close>: the maximal runs of non-whitespace characters.
  The whitespace of \<open>str.split\<close> among the code points below 256 is the space, \<open>0x09\<close> to
  \<open>0x0D\<close>, \<open>0x1C\<close> to \<open>0x1F\<close>, \<open>0x85\<close> and \<open>0xA0\<close>.
\<close>

definition is_space :: "char \<Rightarrow> bool" where
  "is_space c = (c \<in> set [CHR '' '', CHR 0x09, CHR 0x0A, CHR 0x0B, CHR 0x0C, CHR 0x0D,
                           CHR 0x1C, CHR 0x1D, CHR 0x1E, CHR 0x1F, CHR 0x85, CHR 0xA0])"

fun split_ws :: "string \<Rightarrow> string \<Rightarrow> string list" where
  "split_ws cur [] = (if cur = [] then [] else [cur])"
| "split_ws cur (c # cs) =
     (if is_space c then (if cur = [] then split_ws [] cs else cur # split_ws [] cs)
      else split_ws (cur @ [c]) cs)"

definition raw_pts :: "element \<Rightarrow> string list" where
  "raw_pts el =
     (let points = (case attrib_get el ''points'' of None \<Rightarrow> [] | Some ps \<Rightarrow> ps)
      in split_ws [] (map (\<lambda>c. if c = CHR '','' then CHR '' '' else c) points))"

text \<open>
  The branch of the loop body that the tag selects: the polyline it appends, \<open>None\<close> when
  it appends nothing, or the exception it raises. In the \<open>line\<close> branch both \<open>KeyError\<close>
  and \<open>ValueError\<close> are caught; in the other two the \<open>ValueError\<close> of \<open>float\<close> is not.
\<close>

definition tag_branch :: "'g library \<Rightarrow> element \<Rightarrow> error + point list option" where
  "tag_branch lib el =
     (let t = strip_ns (tag el)
      in if t = ''polyline'' \<or> t = ''polygon'' then
           (if length (raw_pts el) < 4 then Inr None
            else case floats lib (raw_pts el) of
                   Inl e \<Rightarrow> Inl e
                 | Inr pts \<Rightarrow> Inr (Some (pair_up pts)))
         else if t = ''line'' then
           (case (attrib_get el ''x1'', attrib_get el ''y1'', attrib_get el ''x2'', attrib_get el ''y2'') of
              (Some a, Some b, Some c, Some d) \<Rightarrow>
                (case (lib_float lib a, lib_float lib b, lib_float lib c, lib_float lib d) of
                   (Some x1, Some y1, Some x2, Some y2) \<Rightarrow> Inr (Some [(x1, y1), (x2, y2)])
                 | _ \<Rightarrow> Inr None)
            | _ \<Rightarrow> Inr None)
         else if t = ''path'' then
           (let d = (case attrib_get el ''d'' of None \<Rightarrow> [] | Some v \<Rightarrow> v)
            in if d = [] then Inr None
               else let matches = lib_findall lib d
                    in if length matches < 2 then Inr None
                       else case floats lib (concat (map (\<lambda>(x, y). [x, y]) matches)) of
                              Inl e \<Rightarrow> Inl e
                            | Inr pts \<Rightarrow>
                                if length (pair_up pts) \<ge> 2 then Inr (Some (pair_up pts)) else Inr None)
         else Inr None)"

text \<open>The loop over \<open>root.iter()\<close>; \<open>stroke_thresh\<close> is the default argument \<open>1.5\<close>.\<close>

fun extract_loop :: "'g library \<Rightarrow> real \<Rightarrow> element list \<Rightarrow> error + point list list" where
  "extract_loop lib stroke_thresh [] = Inr []"
| "extract_loop lib stroke_thresh (el # els) =
     (case stroke_w lib el of
        Inl e \<Rightarrow> Inl e
      | Inr w \<Rightarrow>
          if w < stroke_thresh then extract_loop lib stroke_thresh els
          else case tag_branch lib el of
                 Inl e \<Rightarrow> Inl e
               | Inr added \<Rightarrow>
                   (case extract_loop lib stroke_thresh els of
                      Inl e \<Rightarrow> Inl e
                    | Inr polylines \<Rightarrow>
                        Inr (case added of None \<Rightarrow> polylines | Some poly \<Rightarrow> poly # polylines)))"

text \<open>
  \<^verbatim>\<open>except ET.ParseError: return []\<close> catches \<open>ParseError\<close> only; any other exception of
  the parser leaves the function.
\<close>

definition extract_polylines :: "'g library \<Rightarrow> string \<Rightarrow> error + point list list" where
  "extract_polylines lib svg_text =
     (case lib_fromstring lib svg_text of
        Inl e \<Rightarrow> if e = ParseError then Inr [] else Inl e
      | Inr root_el \<Rightarrow> extract_loop lib (3 / 2) (iter root_el))"

subsection \<open>Vector helpers\<close>

text \<open>
  The two-element numpy arrays of the source are pairs; the array operations it uses are
  written out componentwise. \<open>linalg_norm\<close> is \<^verbatim>\<open>np.linalg.norm\<close> on such an array.
\<close>

definition EPS :: real where
  "EPS = 1 / 1000000000"

definition vsub :: "point \<Rightarrow> point \<Rightarrow> point" where
  "vsub a b = (fst a - fst b, snd a - snd b)"

definition vadd :: "point \<Rightarrow> point \<Rightarrow> point" where
  "vadd a b = (fst a + fst b, snd a + snd b)"

definition smul :: "real \<Rightarrow> point \<Rightarrow> point" where
  "smul k a = (k * fst a, k * snd a)"

definition sdiv :: "point \<Rightarrow> real \<Rightarrow> point" where
  "sdiv a k = (fst a / k, snd a / k)"

definition dot :: "point \<Rightarrow> point \<Rightarrow> real" where
  "dot a b = fst a * fst b + snd a * snd b"

definition cross_2d :: "point \<Rightarrow> point \<Rightarrow> real" where
  "cross_2d a b = fst a * snd b - snd a * fst b"

definition linalg_norm :: "point \<Rightarrow> real" where
  "linalg_norm v = sqrt (fst v * fst v + snd v * snd v)"

subsection \<open>Flattener\<close>

text \<open>
  \<^verbatim>\<open>segments = [(p1, p2) for poly in thick_polylines for p1, p2 in zip(poly[:-1], poly[1:])]\<close>
\<close>

definition segments_of :: "point list list \<Rightarrow> segment list" where
  "segments_of thick_polylines =
     concat (map (\<lambda>poly. zip (butlast poly) (tl poly)) thick_polylines)"

text \<open>\<^verbatim>\<open>lengths.append(sqrt(dx * dx + dy * dy))\<close>\<close>

definition seg_length :: "segment \<Rightarrow> real" where
  "seg_length s = (case s of ((x1, y1), (x2, y2)) \<Rightarrow>
     (let dx = x2 - x1; dy = y2 - y1 in sqrt (dx * dx + dy * dy)))"

subsection \<open>Caster: one random point per segment, nearest hit of the two normals\<close>

text \<open>
  The global generator of Python's \<open>random\<close> module is a state of type \<open>'g\<close>;
  \<open>random.random()\<close> is a function \<open>rnd\<close> that returns the next number and the next
  state. Both are library code and are parameters of the model.
\<close>

fun rand_points_from :: "('g \<Rightarrow> real \<times> 'g) \<Rightarrow> 'g \<Rightarrow> segment list \<Rightarrow> point list \<times> 'g" where
  "rand_points_from rnd g [] = ([], g)"
| "rand_points_from rnd g (((x1, y1), (x2, y2)) # rest) =
     (let (t, g1) = rnd g;
          (pts, g2) = rand_points_from rnd g1 rest
      in ((x1 + t * (x2 - x1), y1 + t * (y2 - y1)) # pts, g2))"

definition intersect_ray_segment :: "point \<Rightarrow> point \<Rightarrow> point \<Rightarrow> point \<Rightarrow> (real \<times> point) option" where
  "intersect_ray_segment P d Q1 Q2 =
     (let r = vsub Q2 Q1;
          denom = cross_2d d r
      in if \<bar>denom\<bar> < EPS then None
         else let t = cross_2d (vsub Q1 P) r / denom;
                  u = cross_2d (vsub Q1 P) d / denom
              in if t \<ge> 0 \<and> 0 \<le> u \<and> u \<le> 1 then Some (t, vadd P (smul t d)) else None)"

text \<open>
  \<open>best_t, best_pt = math.inf, None\<close> is the state \<open>None\<close>; a hit replaces the state
  when its \<open>t\<close> is strictly smaller.
\<close>

definition ray_update :: "(real \<times> point) option \<Rightarrow> (real \<times> point) option \<Rightarrow> (real \<times> point) option" where
  "ray_update best hit =
     (case hit of
        None \<Rightarrow> best
      | Some (t, P_hit) \<Rightarrow>
          (case best of
             None \<Rightarrow> Some (t, P_hit)
           | Some (best_t, best_pt) \<Rightarrow> if t < best_t then Some (t, P_hit) else best))"

definition cast_dir :: "segment list \<Rightarrow> nat \<Rightarrow> point \<Rightarrow> point \<Rightarrow> (real \<times> point) option \<Rightarrow> (real \<times> point) option" where
  "cast_dir segments idx P0 d best0 =
     fold (\<lambda>(jdx, (Q1, Q2)) best.
             if jdx = idx then best
             else ray_update best (intersect_ray_segment P0 d Q1 Q2))
          (enumerate 0 segments) best0"

definition cast_segment :: "segment list \<Rightarrow> point list \<Rightarrow> nat \<Rightarrow> point option" where
  "cast_segment segments rand_points idx =
     (case segments ! idx of ((x1, y1), (x2, y2)) \<Rightarrow>
        (let P0 = rand_points ! idx;
             v = (x2 - x1, y2 - y1);
             v_norm = (if linalg_norm v = 0 then 1 else linalg_norm v);
             n1 = sdiv (- snd v, fst v) v_norm;
             n2 = sdiv (snd v, - fst v) v_norm
         in map_option snd (cast_dir segments idx P0 n2 (cast_dir segments idx P0 n1 None))))"

text \<open>
  \<open>pairs_dict\<close> maps a segment index to its nearest hit point; a Python dict iterates in
  insertion order, here ascending index, so it is an association list.
\<close>

definition pairs_dict :: "segment list \<Rightarrow> point list \<Rightarrow> (nat \<times> point) list" where
  "pairs_dict segments rand_points =
     concat (map (\<lambda>idx. case cast_segment segments rand_points idx of
                           None \<Rightarrow> []
                         | Some best_pt \<Rightarrow> [(idx, best_pt)])
                 [0..<length segments])"

subsection \<open>Pair-Seeder: first generation of stripe pairs\<close>

text \<open>
  The loop before the seeding loop (``confirm same-distance mate'') fills the lists
  \<open>kept_P0\<close>, \<open>kept_P1\<close>, \<open>kept_P2\<close> and \<open>connectors_on\<close>, which are never read; it raises
  nothing and is left out.
\<close>

definition MAX_GAP_RATIO :: real where
  "MAX_GAP_RATIO = 2"

definition point_on_segment :: "point \<Rightarrow> point \<Rightarrow> point \<Rightarrow> bool" where
  "point_on_segment P Q1 Q2 =
     (let tol = 1 / 1000000
      in if \<bar>cross_2d (vsub Q2 Q1) (vsub P Q1)\<bar> > tol then False
         else let dot1 = dot (vsub P Q1) (vsub Q2 Q1);
                  dot2 = dot (vsub P Q2) (vsub Q1 Q2)
              in dot1 \<ge> - tol \<and> dot2 \<ge> - tol)"

definition find_idxB :: "segment list \<Rightarrow> nat \<Rightarrow> point \<Rightarrow> nat option" where
  "find_idxB segments idxA P1 =
     map_option fst
       (find (\<lambda>(jdx, (Q1, Q2)). jdx \<noteq> idxA \<and> point_on_segment P1 Q1 Q2) (enumerate 0 segments))"

text \<open>
  The body of the seeding loop for one entry \<open>(idxA, P1)\<close> of \<open>pairs_dict\<close>: the frozenset
  it adds to \<open>stripe_pairs\<close>, if any. Every \<open>continue\<close> of the source is a \<open>None\<close>.
\<close>

definition seed_pair :: "segment list \<Rightarrow> point list \<Rightarrow> nat \<Rightarrow> point \<Rightarrow> nat set option" where
  "seed_pair segments rand_points idxA P1 =
     (let P0 = rand_points ! idxA
      in case find_idxB segments idxA P1 of
           None \<Rightarrow> None
         | Some idxB \<Rightarrow>
             (case segments ! idxA of ((x1, y1), (x2, y2)) \<Rightarrow>
                (let v = (x2 - x1, y2 - y1);
                     L = linalg_norm v
                 in if L = 0 then None
                    else let v_hat = sdiv v L;
                             t0 = dot (vsub P0 (x1, y1)) v_hat / L;
                             d = linalg_norm (vsub P1 P0);
                             dt = d / L;
                             candidates =
                               map (\<lambda>t2. vadd (x1, y1) (smul t2 v))
                                 (filter (\<lambda>t2. 0 \<le> t2 \<and> t2 \<le> 1) [t0 + (- 1) * dt, t0 + 1 * dt]);
                             dir_vec = vsub P1 P0;
                             n_len = linalg_norm dir_vec
                         in if n_len < EPS then None
                            else let d_hat = sdiv dir_vec n_len;
                                     (B1, B2) = segments ! idxB
                                 in if list_ex (\<lambda>P2. case intersect_ray_segment P2 d_hat B1 B2 of
                                                        None \<Rightarrow> False
                                                      | Some (t_hit, P3) \<Rightarrow> \<not> t_hit > MAX_GAP_RATIO * d)
                                               candidates
                                    then Some {idxA, idxB} else None)))"

definition seed_pairs :: "segment list \<Rightarrow> point list \<Rightarrow> nat set set" where
  "seed_pairs segments rand_points =
     fold (\<lambda>(idxA, P1) stripe_pairs.
             case seed_pair segments rand_points idxA P1 of
               None \<Rightarrow> stripe_pairs
             | Some pr \<Rightarrow> insert pr stripe_pairs)
          (pairs_dict segments rand_points) {}"

subsection \<open>Pair-Grower\<close>

definition EPS_PT :: real where
  "EPS_PT = 1 / 1000000"

definition ANG_TOL :: real where
  "ANG_TOL = 5"

definition same_pt :: "point \<Rightarrow> point \<Rightarrow> bool" where
  "same_pt P Q = (\<bar>fst P - fst Q\<bar> \<le> EPS_PT \<and> \<bar>snd P - snd Q\<bar> \<le> EPS_PT)"

text \<open>
  \<^verbatim>\<open>math.atan2\<close>, \<^verbatim>\<open>math.degrees\<close> and the float operator \<^verbatim>\<open>%\<close> (for a positive
  modulus), on real numbers.
\<close>

definition atan2 :: "real \<Rightarrow> real \<Rightarrow> real" where
  "atan2 y x =
     (if x > 0 then arctan (y / x)
      else if x < 0 \<and> y \<ge> 0 then arctan (y / x) + pi
      else if x < 0 then arctan (y / x) - pi
      else if y > 0 then pi / 2
      else if y < 0 then - pi / 2
      else 0)"

definition degrees :: "real \<Rightarrow> real" where
  "degrees a = a * 180 / pi"

definition fmod :: "real \<Rightarrow> real \<Rightarrow> real" where
  "fmod x m = x - m * of_int \<lfloor>x / m\<rfloor>"

text \<open>\<^verbatim>\<open>orientations.append(degrees(atan2(dy, dx)) % 180)\<close>\<close>

definition orientation :: "segment \<Rightarrow> real" where
  "orientation s = (case s of ((x1, y1), (x2, y2)) \<Rightarrow>
     (let dx = x2 - x1; dy = y2 - y1 in fmod (degrees (atan2 dy dx)) 180))"

definition is_parallel :: "real list \<Rightarrow> nat \<Rightarrow> nat \<Rightarrow> bool" where
  "is_parallel orientations i j =
     (let d_ang = \<bar>orientations ! i - orientations ! j\<bar>;
          d_ang = (if d_ang \<le> 90 then d_ang else 180 - d_ang)
      in d_ang \<le> ANG_TOL)"

text \<open>
  \<^verbatim>\<open>round(x, 6)\<close>: rounding to six decimals, ties to even. The key of a point in
  \<open>pt2segs\<close> is the pair of its rounded coordinates.
\<close>

definition round_half_even :: "real \<Rightarrow> int" where
  "round_half_even y =
     (let f = \<lfloor>y\<rfloor>; r = y - of_int f
      in if r < 1 / 2 then f else if r > 1 / 2 then f + 1 else if even f then f else f + 1)"

definition round6 :: "real \<Rightarrow> real" where
  "round6 x = of_int (round_half_even (x * 1000000)) / 1000000"

definition qkey :: "point \<Rightarrow> point" where
  "qkey P = (round6 (fst P), round6 (snd P))"

text \<open>
  \<open>pt2segs[k]\<close>: the indices appended under key \<open>k\<close>, in the order of the building loop
  (a \<open>defaultdict(list)\<close>: a key never appended to gives the empty list).
\<close>

definition pt2segs :: "segment list \<Rightarrow> point \<Rightarrow> nat list" where
  "pt2segs endpts k =
     concat (map (\<lambda>(idx, (P, Q)). (if qkey P = k then [idx] else []) @ (if qkey Q = k then [idx] else []))
                 (enumerate 0 endpts))"

definition reds_adjacent_to :: "segment list \<Rightarrow> nat \<Rightarrow> nat set \<Rightarrow> nat set" where
  "reds_adjacent_to endpts seg_idx lonely =
     (case endpts ! seg_idx of (P, Q) \<Rightarrow>
        {j \<in> set (pt2segs endpts (qkey P)). j \<in> lonely} \<union> {j \<in> set (pt2segs endpts (qkey Q)). j \<in> lonely})"

text \<open>
  The inner loop that decides whether the ungrouped segment with endpoints \<open>(U1, U2)\<close> is a
  connector. \<^verbatim>\<open>A, B = tuple(pair)\<close> raises \<open>ValueError\<close> unless the pair has exactly two
  elements.
\<close>

fun connector_scan :: "hash_order \<Rightarrow> segment list \<Rightarrow> segment \<Rightarrow> nat set list \<Rightarrow> error + bool" where
  "connector_scan ho endpts U [] = Inr False"
| "connector_scan ho endpts U (pair # rest) =
     (case iter_idx ho pair of
        [A, B] \<Rightarrow>
          (let (U1, U2) = U;
               (A1, A2) = endpts ! A;
               (B1, B2) = endpts ! B
           in if ((same_pt U1 A1 \<or> same_pt U1 A2) \<and> (same_pt U2 B1 \<or> same_pt U2 B2))
                 \<or> ((same_pt U2 A1 \<or> same_pt U2 A2) \<and> (same_pt U1 B1 \<or> same_pt U1 B2))
              then Inr True
              else connector_scan ho endpts U rest)
      | _ \<Rightarrow> Inl ValueError)"

fun connector_loop :: "hash_order \<Rightarrow> segment list \<Rightarrow> nat set list \<Rightarrow> nat list \<Rightarrow> nat set \<Rightarrow> error + nat set" where
  "connector_loop ho endpts pairs [] connector = Inr connector"
| "connector_loop ho endpts pairs (u # us) connector =
     (case connector_scan ho endpts (endpts ! u) pairs of
        Inl e \<Rightarrow> Inl e
      | Inr found \<Rightarrow> connector_loop ho endpts pairs us (if found then insert u connector else connector))"

text \<open>
  The two nested candidate loops for one stripe pair, on the state \<open>(new_pairs, used)\<close>:
  the first parallel \<open>r2\<close> for \<open>r1\<close> adds \<open>frozenset({r1, r2})\<close> and ends both loops.
\<close>

fun pair_candidates :: "real list \<Rightarrow> nat list \<Rightarrow> nat list \<Rightarrow> nat set set \<times> nat set \<Rightarrow> nat set set \<times> nat set" where
  "pair_candidates orientations [] cand_B st = st"
| "pair_candidates orientations (r1 # rest) cand_B (new_pairs, used) =
     (case find (\<lambda>r2. is_parallel orientations r1 r2) cand_B of
        Some r2 \<Rightarrow> (insert {r1, r2} new_pairs, used \<union> {r1, r2})
      | None \<Rightarrow>
          if r1 \<in> used then (new_pairs, used)
          else pair_candidates orientations rest cand_B (new_pairs, used))"

fun grow_loop :: "hash_order \<Rightarrow> segment list \<Rightarrow> real list \<Rightarrow> nat set \<Rightarrow> nat set list \<Rightarrow>
    nat set set \<times> nat set \<Rightarrow> error + nat set set \<times> nat set" where
  "grow_loop ho endpts orientations lonely [] st = Inr st"
| "grow_loop ho endpts orientations lonely (pr # rest) (new_pairs, used) =
     (case iter_idx ho pr of
        [A, B] \<Rightarrow>
          (let cand_A = filter (\<lambda>r. r \<notin> used) (iter_idx ho (reds_adjacent_to endpts A lonely));
               cand_B = filter (\<lambda>r. r \<notin> used) (iter_idx ho (reds_adjacent_to endpts B lonely))
           in grow_loop ho endpts orientations lonely rest
                (pair_candidates orientations cand_A cand_B (new_pairs, used)))
      | _ \<Rightarrow> Inl ValueError)"

text \<open>
  The \<^verbatim>\<open>while True\<close> loop. Its state is the stripe-pair set and how the loop has ended, if
  it has: by an exception, with \<open>lonely\<close> empty (\<open>Complete\<close>) or with no new pair
  (\<open>Stalled\<close>). \<open>while_option\<close> yields \<open>None\<close> for a loop that never ends.
\<close>

datatype ending = Complete | Stalled

type_synonym grower_state = "nat set set \<times> (error + ending) option"

definition grower_step :: "hash_order \<Rightarrow> segment list \<Rightarrow> real list \<Rightarrow> grower_state \<Rightarrow> grower_state" where
  "grower_step ho endpts orientations st =
     (let stripe_pairs = fst st;
          paired = \<Union> stripe_pairs;
          ungrouped = {0..<length endpts} - paired
      in case connector_loop ho endpts (iter_pairs ho stripe_pairs) (iter_idx ho ungrouped) {} of
           Inl e \<Rightarrow> (stripe_pairs, Some (Inl e))
         | Inr connector \<Rightarrow>
             (let lonely = ungrouped - connector
              in if lonely = {} then (stripe_pairs, Some (Inr Complete))
                 else case grow_loop ho endpts orientations lonely (iter_pairs ho stripe_pairs) ({}, {}) of
                        Inl e \<Rightarrow> (stripe_pairs, Some (Inl e))
                      | Inr (new_pairs, used) \<Rightarrow>
                          if new_pairs \<noteq> {} then (stripe_pairs \<union> new_pairs, None)
                          else (stripe_pairs, Some (Inr Stalled))))"

definition grower :: "hash_order \<Rightarrow> segment list \<Rightarrow> real list \<Rightarrow> nat set set \<Rightarrow> grower_state option" where
  "grower ho endpts orientations seeds =
     while_option (\<lambda>st. snd st = None) (grower_step ho endpts orientations) (seeds, None)"

subsection \<open>Weld\<close>

text \<open>\<^verbatim>\<open>math.hypot\<close>, and the source's \<open>dist\<close>, the Euclidean distance of two points.\<close>

definition hypot :: "real \<Rightarrow> real \<Rightarrow> real" where
  "hypot x y = sqrt (x * x + y * y)"

definition dist_pt :: "point \<Rightarrow> point \<Rightarrow> real" where
  "dist_pt P Q = hypot (fst P - fst Q) (snd P - snd Q)"

text \<open>
  \<open>canon\<close> returns the first representative \<open>c\<close> with \<^verbatim>\<open>math.hypot(*(pt - c)) <= tol\<close>, or
  appends the point to \<open>uniques\<close> and returns it. The list \<open>uniques\<close> is the closure's state.
\<close>

definition canon :: "real \<Rightarrow> point list \<Rightarrow> point \<Rightarrow> point \<times> point list" where
  "canon tol uniques pt =
     (case find (\<lambda>c. hypot (fst pt - fst c) (snd pt - snd c) \<le> tol) uniques of
        Some c \<Rightarrow> (c, uniques)
      | None \<Rightarrow> (pt, uniques @ [pt]))"

fun weld_loop :: "real \<Rightarrow> point list \<Rightarrow> segment list \<Rightarrow> segment list" where
  "weld_loop tol uniques [] = []"
| "weld_loop tol uniques ((A, B) # rest) =
     (let (a, uniques1) = canon tol uniques A;
          (b, uniques2) = canon tol uniques1 B
      in (a, b) # weld_loop tol uniques2 rest)"

definition weld :: "segment list \<Rightarrow> real \<Rightarrow> segment list" where
  "weld seglist tol = weld_loop tol [] seglist"

subsection \<open>Skeletoniser\<close>

definition ANG_TOL_ALIGN :: real where
  "ANG_TOL_ALIGN = 3"

definition SHIFT_TOL_RATIO :: real where
  "SHIFT_TOL_RATIO = 2 / 100"

text \<open>
  The mid-point line of every stripe pair. \<^verbatim>\<open>for idxA, idxB in (tuple(pr) for pr in
  stripe_pairs)\<close> raises \<open>ValueError\<close> at a pair that does not have exactly two elements.
\<close>

fun midpoint_lines_loop :: "hash_order \<Rightarrow> segment list \<Rightarrow> nat set list \<Rightarrow> error + segment list" where
  "midpoint_lines_loop ho endpts [] = Inr []"
| "midpoint_lines_loop ho endpts (pr # rest) =
     (case iter_idx ho pr of
        [idxA, idxB] \<Rightarrow>
          (let (A1, A2) = endpts ! idxA;
               (B1, B2) = endpts ! idxB;
               L1 = dist_pt A1 B1 + dist_pt A2 B2;
               L2 = dist_pt A1 B2 + dist_pt A2 B1;
               conns = (if L1 \<le> L2 then [(A1, B1), (A2, B2)] else [(A1, B2), (A2, B1)]);
               mids = map (\<lambda>(P, Q). ((fst P + fst Q) / 2, (snd P + snd Q) / 2)) conns
           in case midpoint_lines_loop ho endpts rest of
                Inl e \<Rightarrow> Inl e
              | Inr ms \<Rightarrow> Inr ((mids ! 0, mids ! 1) # ms))
      | _ \<Rightarrow> Inl ValueError)"

text \<open>
  \<^verbatim>\<open>np.median\<close>. On the empty list numpy returns \<open>nan\<close>; the tolerance derived from it is
  then never compared with anything, since every later list is empty too.
\<close>

definition median :: "real list \<Rightarrow> real" where
  "median xs =
     (let s = sort xs; n = length s
      in if n = 0 then 0
         else if odd n then s ! (n div 2)
         else (s ! (n div 2 - 1) + s ! (n div 2)) / 2)"

text \<open>\<^verbatim>\<open>v / n if n else v\<close>\<close>

definition unit :: "point \<Rightarrow> point" where
  "unit v = (let n = linalg_norm v in if n \<noteq> 0 then sdiv v n else v)"

definition violet_dir :: "segment \<Rightarrow> point" where
  "violet_dir l = unit (vsub (snd l) (fst l))"

definition violet_len :: "segment \<Rightarrow> real" where
  "violet_len l = linalg_norm (vsub (snd l) (fst l))"

definition violet_mid :: "segment \<Rightarrow> point" where
  "violet_mid l = sdiv (vadd (fst l) (snd l)) 2"

definition violet_ang :: "segment \<Rightarrow> real" where
  "violet_ang l = fmod (degrees (atan2 (snd (snd l) - snd (fst l)) (fst (snd l) - fst (fst l)))) 180"

text \<open>
  Union-find on the list \<open>parent\<close>. \<open>find\<close> halves the path while it walks to the root, so
  it returns the updated list with the root.
\<close>

definition uf_find :: "nat list \<Rightarrow> nat \<Rightarrow> (nat list \<times> nat) option" where
  "uf_find parent i =
     while_option (\<lambda>(parent, i). parent ! i \<noteq> i)
       (\<lambda>(parent, i). let parent' = parent[i := parent ! (parent ! i)] in (parent', parent' ! i))
       (parent, i)"

definition uf_union :: "nat list \<Rightarrow> nat \<Rightarrow> nat \<Rightarrow> nat list option" where
  "uf_union parent i j =
     (case uf_find parent i of
        None \<Rightarrow> None
      | Some (parent1, a) \<Rightarrow>
          (case uf_find parent1 j of
             None \<Rightarrow> None
           | Some (parent2, b) \<Rightarrow> Some (if a \<noteq> b then parent2[b := a] else parent2)))"

definition perp_dist :: "point \<Rightarrow> point \<Rightarrow> point \<Rightarrow> real" where
  "perp_dist P A v_hat = \<bar>fst (vsub P A) * snd v_hat - snd (vsub P A) * fst v_hat\<bar>"

text \<open>\<^verbatim>\<open>for i in range(n): for j in range(i + 1, n)\<close>\<close>

definition index_pairs :: "nat \<Rightarrow> (nat \<times> nat) list" where
  "index_pairs n = concat (map (\<lambda>i. map (\<lambda>j. (i, j)) [Suc i..<n]) [0..<n])"

fun union_loop :: "segment list \<Rightarrow> (nat \<times> nat) list \<Rightarrow> nat list \<Rightarrow> nat list option" where
  "union_loop violet_xy [] parent = Some parent"
| "union_loop violet_xy ((i, j) # rest) parent =
     (let dang = \<bar>violet_ang (violet_xy ! i) - violet_ang (violet_xy ! j)\<bar>;
          dang = (if dang \<le> 90 then dang else 180 - dang)
      in if dang > ANG_TOL_ALIGN then union_loop violet_xy rest parent
         else let gap = perp_dist (violet_mid (violet_xy ! i)) (fst (violet_xy ! j)) (violet_dir (violet_xy ! j))
              in if gap \<le> SHIFT_TOL_RATIO * max (violet_len (violet_xy ! i)) (violet_len (violet_xy ! j))
                 then (case uf_union parent i j of
                         None \<Rightarrow> None
                       | Some parent' \<Rightarrow> union_loop violet_xy rest parent')
                 else union_loop violet_xy rest parent)"

text \<open>
  \<open>clusters\<close> is a \<open>defaultdict(list)\<close>: an association list in insertion order of the
  roots.
\<close>

definition dict_append :: "(nat \<times> nat list) list \<Rightarrow> nat \<Rightarrow> nat \<Rightarrow> (nat \<times> nat list) list" where
  "dict_append clusters k idx =
     (if k \<in> fst ` set clusters
      then map (\<lambda>(k', members). if k' = k then (k', members @ [idx]) else (k', members)) clusters
      else clusters @ [(k, [idx])])"

fun clusters_loop :: "nat list \<Rightarrow> nat list \<Rightarrow> (nat \<times> nat list) list \<Rightarrow>
    ((nat \<times> nat list) list \<times> nat list) option" where
  "clusters_loop [] parent clusters = Some (clusters, parent)"
| "clusters_loop (idx # rest) parent clusters =
     (case uf_find parent idx of
        None \<Rightarrow> None
      | Some (parent', r) \<Rightarrow> clusters_loop rest parent' (dict_append clusters r idx))"

definition flip_axis :: "point \<Rightarrow> point" where
  "flip_axis axis_v = (if fst axis_v < 0 then (- fst axis_v, - snd axis_v) else axis_v)"

definition mean_pt :: "point list \<Rightarrow> point" where
  "mean_pt P = (sum_list (map fst P) / real (length P), sum_list (map snd P) / real (length P))"

definition cluster_axis_of :: "(point list \<Rightarrow> point) \<Rightarrow> segment list \<Rightarrow> nat list \<Rightarrow> point \<times> point" where
  "cluster_axis_of svd violet_xy members =
     (if length members = 1
      then let (p1, p2) = violet_xy ! (members ! 0)
           in (p1, flip_axis (unit (vsub p2 p1)))
      else let P = concat (map (\<lambda>m. [fst (violet_xy ! m), snd (violet_xy ! m)]) members);
               ctr = mean_pt P
           in (ctr, flip_axis (unit (svd (map (\<lambda>p. vsub p ctr) P)))))"

definition project :: "point \<Rightarrow> point \<Rightarrow> point \<Rightarrow> point" where
  "project anchor v_hat P = vadd anchor (smul (dot (vsub P anchor) v_hat) v_hat)"

fun aligned_loop :: "(nat \<times> point \<times> point) list \<Rightarrow> segment list \<Rightarrow> nat \<Rightarrow> nat list \<Rightarrow>
    (error + segment list) option" where
  "aligned_loop cluster_axis [] idx parent = Some (Inr [])"
| "aligned_loop cluster_axis ((P, Q) # rest) idx parent =
     (case uf_find parent idx of
        None \<Rightarrow> None
      | Some (parent', r) \<Rightarrow>
          (case map_of cluster_axis r of
             None \<Rightarrow> Some (Inl KeyError)
           | Some (anchor, v_hat) \<Rightarrow>
               (let P_proj = project anchor v_hat P;
                    Q_proj = project anchor v_hat Q;
                    link = (if dot (vsub Q_proj P_proj) v_hat < 0 then (Q_proj, P_proj) else (P_proj, Q_proj))
                in case aligned_loop cluster_axis rest (Suc idx) parent' of
                     None \<Rightarrow> None
                   | Some (Inl e) \<Rightarrow> Some (Inl e)
                   | Some (Inr links) \<Rightarrow> Some (Inr (link # links)))))"

text \<open>Merging the sorted intervals of one cluster.\<close>

fun merge_loop :: "real \<Rightarrow> real \<times> real \<Rightarrow> (real \<times> real) list \<Rightarrow> (real \<times> real) list" where
  "merge_loop OVERLAP_TOL (cur_a, cur_b) [] = [(cur_a, cur_b)]"
| "merge_loop OVERLAP_TOL (cur_a, cur_b) ((a, b) # rest) =
     (if a \<le> cur_b + OVERLAP_TOL then merge_loop OVERLAP_TOL (cur_a, max cur_b b) rest
      else (cur_a, cur_b) # merge_loop OVERLAP_TOL (a, b) rest)"

definition cluster_links :: "real \<Rightarrow> segment list \<Rightarrow> point \<times> point \<Rightarrow> nat list \<Rightarrow> error + segment list" where
  "cluster_links OVERLAP_TOL aligned_links ax members =
     (let (anchor, v_hat) = ax;
          intervals = map (\<lambda>idx. let (P, Q) = aligned_links ! idx;
                                     s1 = dot (vsub P anchor) v_hat;
                                     s2 = dot (vsub Q anchor) v_hat
                                 in if s1 > s2 then (s2, s1) else (s1, s2)) members
      in case sort_key fst intervals of
           [] \<Rightarrow> Inl IndexError
         | iv # rest \<Rightarrow>
             Inr (map (\<lambda>(s0, s1). (vadd anchor (smul s0 v_hat), vadd anchor (smul s1 v_hat)))
                      (merge_loop OVERLAP_TOL iv rest)))"

fun unified_loop :: "real \<Rightarrow> segment list \<Rightarrow> (nat \<times> point \<times> point) list \<Rightarrow>
    (nat \<times> nat list) list \<Rightarrow> error + segment list" where
  "unified_loop OVERLAP_TOL aligned_links cluster_axis [] = Inr []"
| "unified_loop OVERLAP_TOL aligned_links cluster_axis ((r, members) # rest) =
     (case map_of cluster_axis r of
        None \<Rightarrow> Inl KeyError
      | Some ax \<Rightarrow>
          (case cluster_links OVERLAP_TOL aligned_links ax members of
             Inl e \<Rightarrow> Inl e
           | Inr links \<Rightarrow>
               (case unified_loop OVERLAP_TOL aligned_links cluster_axis rest of
                  Inl e \<Rightarrow> Inl e
                | Inr others \<Rightarrow> Inr (links @ others))))"

text \<open>
  From the stripe pairs to the unified links. The result is \<open>None\<close> when a \<open>find\<close> loop
  does not end.
\<close>

definition skeleton :: "'g library \<Rightarrow> segment list \<Rightarrow> nat set set \<Rightarrow> (error + segment list) option" where
  "skeleton lib endpts stripe_pairs =
     (case midpoint_lines_loop (lib_order lib) endpts (iter_pairs (lib_order lib) stripe_pairs) of
        Inl e \<Rightarrow> Some (Inl e)
      | Inr midpoint_lines \<Rightarrow>
          (let med_link_len = median (map (\<lambda>(P, Q). dist_pt P Q) midpoint_lines);
               POINT_JOIN_TOL = 5 / 1000 * med_link_len;
               violet_xy = midpoint_lines;
               n = length violet_xy
           in case union_loop violet_xy (index_pairs n) [0..<n] of
                None \<Rightarrow> None
              | Some parent1 \<Rightarrow>
                  (case clusters_loop [0..<n] parent1 [] of
                     None \<Rightarrow> None
                   | Some (clusters, parent2) \<Rightarrow>
                       (let cluster_axis =
                              map (\<lambda>(r, members). (r, cluster_axis_of (lib_svd lib) violet_xy members)) clusters
                        in case aligned_loop cluster_axis violet_xy 0 parent2 of
                             None \<Rightarrow> None
                           | Some (Inl e) \<Rightarrow> Some (Inl e)
                           | Some (Inr aligned_links0) \<Rightarrow>
                               (let aligned_links = weld aligned_links0 POINT_JOIN_TOL
                                in case unified_loop POINT_JOIN_TOL aligned_links cluster_axis clusters of
                                     Inl e \<Rightarrow> Some (Inl e)
                                   | Inr unified_links \<Rightarrow> Some (Inr (weld unified_links POINT_JOIN_TOL)))))))"

subsection \<open>Polygoniser and the entry point\<close>

text \<open>
  The last stage: without Shapely the function returns the empty list; otherwise every
  valid polygon of area at least \<open>1e-3\<close> gives the room of its bounds.
\<close>

definition room_of :: "polygon \<Rightarrow> room" where
  "room_of poly = (case bounds poly of (minx, miny, maxx, maxy) \<Rightarrow>
     \<lparr>bbox = (minx, miny, maxx - minx, maxy - miny)\<rparr>)"

definition polygonise_stage :: "(segment list \<Rightarrow> polygon list) option \<Rightarrow> segment list \<Rightarrow> room list" where
  "polygonise_stage backend unified_links =
     (case backend of
        None \<Rightarrow> []
      | Some polygonize \<Rightarrow>
          (let line_strings = filter (\<lambda>(P, Q). P \<noteq> Q) unified_links;
               polys = polygonize line_strings
           in map room_of (filter (\<lambda>poly. \<not> (\<not> is_valid poly \<or> area poly < 1 / 1000)) polys)))"

text \<open>
  From the segments to the end of the Pair-Grower, on the state of the random generator:
  \<open>random.seed(42)\<close> replaces the state before the first draw. The result is the final
  state of the grower loop and the generator's state afterwards.
\<close>

definition stripe_pairs_of :: "'g library \<Rightarrow> segment list \<Rightarrow> grower_state option \<times> 'g" where
  "stripe_pairs_of lib segments =
     (let orientations = map orientation segments;
          (rand_points, g1) = rand_points_from (lib_random lib) (lib_seed lib 42) segments;
          seeds = seed_pairs segments rand_points
      in (grower (lib_order lib) segments orientations seeds, g1))"

text \<open>
  Everything between the Reader and the Polygoniser, on a non-empty list of polylines:
  the unified links, or the exception raised.
\<close>

definition unified_links_of :: "'g library \<Rightarrow> point list list \<Rightarrow> (error + segment list) option \<times> 'g" where
  "unified_links_of lib thick_polylines =
     (let segments = segments_of thick_polylines
      in case stripe_pairs_of lib segments of
           (None, g1) \<Rightarrow> (None, g1)
         | (Some (stripe_pairs, ended), g1) \<Rightarrow>
             ((case ended of
                 Some (Inl e) \<Rightarrow> Some (Inl e)
               | _ \<Rightarrow> skeleton lib segments stripe_pairs), g1))"

text \<open>
  \<open>identify\<close> takes the state \<open>g\<close> of the global random generator and returns it with the
  result: the room list, the exception that reaches the caller, or \<open>None\<close> when a loop does
  not end.
\<close>

definition identify :: "'g library \<Rightarrow> 'g \<Rightarrow> string \<Rightarrow> (error + room list) option \<times> 'g" where
  "identify lib g svg_text =
     (case extract_polylines lib svg_text of
        Inl e \<Rightarrow> (Some (Inl e), g)
      | Inr thick_polylines \<Rightarrow>
          if thick_polylines = [] then (Some (Inr []), g)
          else (case unified_links_of lib thick_polylines of
                  (None, g1) \<Rightarrow> (None, g1)
                | (Some (Inl e), g1) \<Rightarrow> (Some (Inl e), g1)
                | (Some (Inr unified_links), g1) \<Rightarrow>
                    (Some (Inr (polygonise_stage (lib_polygonize lib) unified_links)), g1)))"

section \<open>Predicates and example inputs\<close>

text \<open>Representatives that are pairwise farther apart than the tolerance.\<close>

definition separated :: "real \<Rightarrow> point list \<Rightarrow> bool" where
  "separated tol V = (\<forall>c \<in> set V. \<forall>c' \<in> set V. dist_pt c c' \<le> tol \<longrightarrow> c = c')"

text \<open>
  The iteration order of a hash set lists the elements of the set. Nothing else is assumed
  of it.
\<close>

definition valid_order :: "hash_order \<Rightarrow> bool" where
  "valid_order ho = (\<forall>S. finite S \<longrightarrow> set (iter_idx ho S) = S)"

text \<open>
  The state \<open>(new_pairs, used)\<close> of one grower iteration: the new pairs are non-empty sets of
  lonely segments, recorded in \<open>used\<close>, and disjoint from each other.
\<close>

definition fresh_pairs :: "nat set \<Rightarrow> nat set set \<times> nat set \<Rightarrow> bool" where
  "fresh_pairs lonely st =
     ((\<forall>p \<in> fst st. p \<noteq> {} \<and> p \<subseteq> lonely) \<and> \<Union> (fst st) \<subseteq> snd st \<and>
      (\<forall>p \<in> fst st. \<forall>q \<in> fst st. p \<noteq> q \<longrightarrow> p \<inter> q = {}))"

text \<open>Two different stripe pairs share a segment only when both are seed pairs.\<close>

definition seeds_only_overlap :: "nat set set \<Rightarrow> nat set set \<Rightarrow> bool" where
  "seeds_only_overlap seeds sp =
     (seeds \<subseteq> sp \<and> (\<forall>p \<in> sp. \<forall>q \<in> sp. p \<noteq> q \<and> p \<inter> q \<noteq> {} \<longrightarrow> p \<in> seeds \<and> q \<in> seeds))"

text \<open>
  A concrete iteration order for the examples: indices ascending (the order of CPython
  for a set of small integers), pairs by their sorted index lists.
\<close>

definition sorted_order :: hash_order where
  "sorted_order = \<lparr>iter_idx = sorted_list_of_set,
                   iter_pairs = (\<lambda>S. map set (sorted_list_of_set (sorted_list_of_set ` S)))\<rparr>"

text \<open>
  The first four results of \<open>random.random()\<close> after \<open>random.seed(42)\<close> in CPython, as the
  exact values of the doubles (\<open>0.6394267984578837\<close>, \<open>0.025010755222666936\<close>,
  \<open>0.27502931836911926\<close>, \<open>0.22321073814882275\<close>). The generator state of the examples is
  the number of draws made.
\<close>

definition mt42 :: "real list" where
  "mt42 = [5759444582531269 / 9007199254740992, 225276855802115 / 9007199254740992,
           1238621935723127 / 4503599627370496, 2010503594304263 / 9007199254740992]"

text \<open>
  Example documents and the trees \<open>ET.fromstring\<close> builds of them: three walls that meet
  in a corner, a wall whose stroke width carries a unit, a single wall, a thin line, and
  a line with a style that names no stroke width.
\<close>

definition svg_corner :: string where
  "svg_corner = ''<svg><line stroke-width='2' x1='0' y1='0' x2='10' y2='0'/><line stroke-width='2' x1='8' y1='6' x2='0' y2='0'/><line stroke-width='2' x1='0' y1='0' x2='-3' y2='-4'/></svg>''"

definition tree_corner :: element where
  "tree_corner = Element ''svg'' []
     [Element ''line'' [(''stroke-width'', ''2''), (''x1'', ''0''), (''y1'', ''0''), (''x2'', ''10''), (''y2'', ''0'')] [],
      Element ''line'' [(''stroke-width'', ''2''), (''x1'', ''8''), (''y1'', ''6''), (''x2'', ''0''), (''y2'', ''0'')] [],
      Element ''line'' [(''stroke-width'', ''2''), (''x1'', ''0''), (''y1'', ''0''), (''x2'', ''-3''), (''y2'', ''-4'')] []]"

definition svg_px :: string where
  "svg_px = ''<svg><line stroke-width='2px' x1='0' y1='0' x2='1' y2='1'/></svg>''"

definition tree_px :: element where
  "tree_px = Element ''svg'' []
     [Element ''line'' [(''stroke-width'', ''2px''), (''x1'', ''0''), (''y1'', ''0''), (''x2'', ''1''), (''y2'', ''1'')] []]"

definition svg_one :: string where
  "svg_one = ''<svg><line stroke-width='2' x1='0' y1='0' x2='10' y2='0'/></svg>''"

definition tree_one :: element where
  "tree_one = Element ''svg'' []
     [Element ''line'' [(''stroke-width'', ''2''), (''x1'', ''0''), (''y1'', ''0''), (''x2'', ''10''), (''y2'', ''0'')] []]"

definition svg_thin :: string where
  "svg_thin = ''<svg><line stroke-width='1' x1='0' y1='0' x2='10' y2='0'/></svg>''"

definition tree_thin :: element where
  "tree_thin = Element ''svg'' []
     [Element ''line'' [(''stroke-width'', ''1''), (''x1'', ''0''), (''y1'', ''0''), (''x2'', ''10''), (''y2'', ''0'')] []]"

definition svg_styled :: string where
  "svg_styled = ''<svg><line style='stroke:#000' x1='0' y1='0' x2='1' y2='1'/></svg>''"

definition tree_styled :: element where
  "tree_styled = Element ''svg'' []
     [Element ''line'' [(''style'', ''stroke:#000''), (''x1'', ''0''), (''y1'', ''0''), (''x2'', ''1''), (''y2'', ''1'')] []]"

text \<open>
  The library of the examples. \<open>ET.fromstring\<close> and \<open>float\<close> are given by their values at
  the arguments the examples use: the documents above and the empty document, at which
  \<open>ET.fromstring\<close> raises \<open>ParseError\<close>, and the attribute values of the documents, of which
  \<open>float\<close> rejects \<open>2px\<close> and \<open>stroke:#000\<close> with \<open>ValueError\<close>. Shapely is absent.
\<close>

definition example_lib :: "nat library" where
  "example_lib = \<lparr>lib_fromstring =
                    (\<lambda>s. case map_of [(svg_corner, tree_corner), (svg_px, tree_px), (svg_one, tree_one),
                                      (svg_thin, tree_thin), (svg_styled, tree_styled)] s of
                           Some t \<Rightarrow> Inr t
                         | None \<Rightarrow> Inl ParseError),
                  lib_float = map_of [(''0'', 0), (''1'', 1), (''2'', 2), (''6'', 6), (''8'', 8),
                                      (''10'', 10), (''-3'', - 3), (''-4'', - 4)],
                  lib_findall = (\<lambda>s. []),
                  lib_seed = (\<lambda>a. 0), lib_random = (\<lambda>k. (mt42 ! k, Suc k)),
                  lib_order = sorted_order, lib_svd = (\<lambda>M. (1, 0)), lib_polygonize = None\<rparr>"

text \<open>Three parallel walls; a corner of three walls; the corner and a far wall.\<close>

definition three_parallel :: "segment list" where
  "three_parallel = [((0, 0), (10, 0)), ((0, 1), (10, 1)), ((0, 2), (10, 2))]"

definition corner3 :: "segment list" where
  "corner3 = [((0, 0), (10, 0)), ((8, 6), (0, 0)), ((0, 0), (- 3, - 4))]"

definition corner3_far :: "segment list" where
  "corner3_far = [((0, 0), (10, 0)), ((8, 6), (0, 0)), ((0, 0), (- 3, - 4)), ((100, 100), (110, 100))]"

text \<open>The random points of the three examples, drawn with the numbers of \<open>mt42\<close>.\<close>

definition rp_par :: "point list" where
  "rp_par = [(28797222912656345 / 4503599627370496, 0),
             (1126384279010575 / 4503599627370496, 1),
             (6193109678615635 / 2251799813685248, 2)]"

definition rp_corner :: "point list" where
  "rp_corner = [(28797222912656345 / 4503599627370496, 0),
                (8781922398938877 / 1125899906842624, 26345767196816631 / 4503599627370496),
                (- (3715865807169381 / 4503599627370496), - (1238621935723127 / 1125899906842624))]"

definition rp_far :: "point list" where
  "rp_far = rp_corner @ [(460412480708570915 / 4503599627370496, 100)]"

text \<open>
  What the last claim assumes of the polygoniser: a valid polygon has ordered bounds and
  an area that does not exceed the area of its bounding box. The backend of the example
  returns a square, an invalid polygon and a degenerate one, whatever its input.
\<close>

definition polygon_contract :: "polygon \<Rightarrow> bool" where
  "polygon_contract poly = (case bounds poly of (minx, miny, maxx, maxy) \<Rightarrow>
     minx \<le> maxx \<and> miny \<le> maxy \<and> area poly \<le> (maxx - minx) * (maxy - miny))"

definition backend_contract :: "(segment list \<Rightarrow> polygon list) option \<Rightarrow> bool" where
  "backend_contract backend = (case backend of
     None \<Rightarrow> True
   | Some polygonize \<Rightarrow> (\<forall>ls. \<forall>poly \<in> set (polygonize ls). is_valid poly \<longrightarrow> polygon_contract poly))"

definition square_backend :: "segment list \<Rightarrow> polygon list" where
  "square_backend ls = [\<lparr>is_valid = True, area = 100, bounds = (0, 0, 10, 10)\<rparr>,
                        \<lparr>is_valid = False, area = 1, bounds = (0, 0, 0, 0)\<rparr>,
                        \<lparr>is_valid = True, area = 0, bounds = (0, 0, 10, 0)\<rparr>]"

section \<open>Properties\<close>

subsection \<open>Weld\<close>

lemma dist_pt_sym: "dist_pt p q = dist_pt q p"
proof -
  have "(fst p - fst q) * (fst p - fst q) = (fst q - fst p) * (fst q - fst p)"
    by (simp add: algebra_simps)
  moreover have "(snd p - snd q) * (snd p - snd q) = (snd q - snd p) * (snd q - snd p)"
    by (simp add: algebra_simps)
  ultimately show ?thesis by (simp add: dist_pt_def hypot_def)
qed

lemma canon_dist: "canon tol uniques pt =
     (case find (\<lambda>c. dist_pt pt c \<le> tol) uniques of
        Some c \<Rightarrow> (c, uniques)
      | None \<Rightarrow> (pt, uniques @ [pt]))"
  by (simp add: canon_def dist_pt_def)

lemma canon_separated:
  assumes "separated tol U" and "canon tol U p = (a, U')"
  shows "separated tol U' \<and> set U \<subseteq> set U' \<and> a \<in> set U'"
proof (cases "find (\<lambda>c. dist_pt p c \<le> tol) U")
  case None
  then have far: "\<forall>c \<in> set U. \<not> dist_pt p c \<le> tol"
    unfolding find_None_iff by blast
  from None assms(2) have eq: "a = p" "U' = U @ [p]"
    by (auto simp: canon_dist)
  have "separated tol (U @ [p])"
    unfolding separated_def
  proof (intro ballI impI)
    fix c c' assume c: "c \<in> set (U @ [p])" and c': "c' \<in> set (U @ [p])"
      and near: "dist_pt c c' \<le> tol"
    show "c = c'"
    proof (cases "c = p")
      case True
      with far near c' show ?thesis by auto
    next
      case False
      with c have cU: "c \<in> set U" by simp
      show ?thesis
      proof (cases "c' = p")
        case True
        with near have "dist_pt p c \<le> tol" by (simp add: dist_pt_sym)
        with far cU show ?thesis by blast
      next
        case False
        with c' have "c' \<in> set U" by simp
        with cU near assms(1) show ?thesis by (simp add: separated_def)
      qed
    qed
  qed
  with eq show ?thesis by auto
next
  case (Some c)
  with assms(2) have eq: "a = c" "U' = U" by (simp_all add: canon_dist)
  from Some have "c \<in> set U" by (auto simp: find_Some_iff)
  with eq assms(1) show ?thesis by simp
qed

lemma weld_loop_separated:
  "separated tol U \<Longrightarrow>
   \<exists>V. separated tol V \<and> set U \<subseteq> set V \<and>
       (\<forall>s \<in> set (weld_loop tol U xs). fst s \<in> set V \<and> snd s \<in> set V)"
proof (induction xs arbitrary: U)
  case Nil
  then show ?case by auto
next
  case (Cons s xs)
  obtain A B where s: "s = (A, B)" by (cases s)
  obtain a U1 where c1: "canon tol U A = (a, U1)" by (cases "canon tol U A")
  obtain b U2 where c2: "canon tol U1 B = (b, U2)" by (cases "canon tol U1 B")
  from canon_separated[OF Cons.prems c1]
  have s1: "separated tol U1" "set U \<subseteq> set U1" "a \<in> set U1" by auto
  from canon_separated[OF s1(1) c2]
  have s2: "separated tol U2" "set U1 \<subseteq> set U2" "b \<in> set U2" by auto
  from Cons.IH[OF s2(1)] obtain V where V: "separated tol V" "set U2 \<subseteq> set V"
    "\<forall>s \<in> set (weld_loop tol U2 xs). fst s \<in> set V \<and> snd s \<in> set V" by blast
  have "weld_loop tol U (s # xs) = (a, b) # weld_loop tol U2 xs"
    by (simp add: s c1 c2)
  moreover have "set U \<subseteq> set V" "a \<in> set V" "b \<in> set V"
    using V(2) s1 s2 by auto
  ultimately show ?case using V(1,3) by (intro exI[of _ V]) simp
qed

lemma canon_fixed:
  assumes "separated tol V" and "set W \<subseteq> set V" and "p \<in> set V"
  shows "\<exists>W'. canon tol W p = (p, W') \<and> set W' \<subseteq> set V"
proof (cases "find (\<lambda>c. dist_pt p c \<le> tol) W")
  case None
  with assms show ?thesis by (simp add: canon_dist)
next
  case (Some c)
  then have "c \<in> set W" and "dist_pt p c \<le> tol" by (auto simp: find_Some_iff)
  with assms have "c = p" by (auto simp: separated_def)
  with Some assms show ?thesis by (simp add: canon_dist)
qed

lemma weld_loop_fixed:
  "separated tol V \<Longrightarrow> set W \<subseteq> set V \<Longrightarrow>
   (\<forall>s \<in> set ys. fst s \<in> set V \<and> snd s \<in> set V) \<Longrightarrow> weld_loop tol W ys = ys"
proof (induction ys arbitrary: W)
  case Nil
  then show ?case by simp
next
  case (Cons s ys)
  obtain A B where s: "s = (A, B)" by (cases s)
  with Cons.prems have AB: "A \<in> set V" "B \<in> set V" by auto
  from canon_fixed[OF Cons.prems(1,2) AB(1)]
  obtain W1 where c1: "canon tol W A = (A, W1)" "set W1 \<subseteq> set V" by blast
  from canon_fixed[OF Cons.prems(1) c1(2) AB(2)]
  obtain W2 where c2: "canon tol W1 B = (B, W2)" "set W2 \<subseteq> set V" by blast
  from Cons.prems have "\<forall>s \<in> set ys. fst s \<in> set V \<and> snd s \<in> set V" by simp
  from Cons.IH[OF Cons.prems(1) c2(2) this] show ?case
    by (simp add: s c1 c2)
qed

text \<open>
  Claim C7. Welding is idempotent: for every list of segments and every tolerance,
  welding the welded list again returns it unchanged.
\<close>

theorem weld_idempotent: "weld (weld seglist tol) tol = weld seglist tol"
proof -
  have "separated tol []" by (simp add: separated_def)
  from weld_loop_separated[OF this, of seglist]
  obtain V where V: "separated tol V"
    "\<forall>s \<in> set (weld_loop tol [] seglist). fst s \<in> set V \<and> snd s \<in> set V" by blast
  have "weld_loop tol [] (weld_loop tol [] seglist) = weld_loop tol [] seglist"
    by (rule weld_loop_fixed[OF V(1) _ V(2)]) simp
  then show ?thesis by (simp add: weld_def)
qed

theorem weld_idempotent_witness:
  "weld (weld [((0, 0), (1, 0)), ((0, 0), (1, 0))] 0) 0 = [((0, 0), (1, 0)), ((0, 0), (1, 0))]"
  using weld_idempotent [of "[((0, 0), (1, 0)), ((0, 0), (1, 0))]" 0]
  by (simp add: weld_def canon_def hypot_def)
subsection \<open>Pair-Grower: what an iteration adds, and termination\<close>

lemma reds_adjacent_to_finite: "finite (reds_adjacent_to endpts A lonely)"
  by (simp add: reds_adjacent_to_def split: prod.splits)

lemma reds_adjacent_to_subset: "reds_adjacent_to endpts A lonely \<subseteq> lonely"
  by (auto simp: reds_adjacent_to_def split: prod.splits)

lemma fresh_pairs_insert:
  assumes "fresh_pairs lonely (new_pairs, used)" "r1 \<in> lonely" "r2 \<in> lonely"
    "r1 \<notin> used" "r2 \<notin> used"
  shows "fresh_pairs lonely (insert {r1, r2} new_pairs, used \<union> {r1, r2})"
proof -
  have disj: "p \<inter> {r1, r2} = {}" if "p \<in> new_pairs" for p
    using assms(1,4,5) that by (auto simp: fresh_pairs_def)
  then have disj': "{r1, r2} \<inter> p = {}" if "p \<in> new_pairs" for p
    using that by blast
  show ?thesis
    unfolding fresh_pairs_def fst_conv snd_conv
  proof (intro conjI ballI impI)
    fix p assume "p \<in> insert {r1, r2} new_pairs"
    then show "p \<noteq> {}" "p \<subseteq> lonely"
      using assms(1,2,3) by (auto simp: fresh_pairs_def)
  next
    show "\<Union> (insert {r1, r2} new_pairs) \<subseteq> used \<union> {r1, r2}"
      using assms(1) by (auto simp: fresh_pairs_def)
  next
    fix p q assume pq: "p \<in> insert {r1, r2} new_pairs" "q \<in> insert {r1, r2} new_pairs" "p \<noteq> q"
    have old: "p \<inter> q = {}" if "p \<in> new_pairs" "q \<in> new_pairs"
      using assms(1) that pq(3) by (simp add: fresh_pairs_def)
    consider "p = {r1, r2}" "q \<in> new_pairs" | "p \<in> new_pairs" "q = {r1, r2}"
      | "p \<in> new_pairs" "q \<in> new_pairs"
      using pq by auto
    then show "p \<inter> q = {}"
    proof cases
      case 1
      then show ?thesis using disj'[of q] by simp
    next
      case 2
      then show ?thesis using disj[of p] by simp
    next
      case 3
      then show ?thesis by (rule old)
    qed
  qed
qed

lemma pair_candidates_fresh:
  "set cand_A \<subseteq> lonely - used \<Longrightarrow> set cand_B \<subseteq> lonely - used \<Longrightarrow>
   fresh_pairs lonely (new_pairs, used) \<Longrightarrow>
   fresh_pairs lonely (pair_candidates orientations cand_A cand_B (new_pairs, used))"
proof (induction cand_A)
  case Nil
  then show ?case by simp
next
  case (Cons r1 rest)
  show ?case
  proof (cases "find (\<lambda>r2. is_parallel orientations r1 r2) cand_B")
    case None
    with Cons show ?thesis by simp
  next
    case (Some r2)
    then have "r2 \<in> set cand_B" by (auto simp: find_Some_iff)
    with Cons.prems have "r1 \<in> lonely" "r2 \<in> lonely" "r1 \<notin> used" "r2 \<notin> used" by auto
    from fresh_pairs_insert[OF Cons.prems(3) this] Some show ?thesis by simp
  qed
qed

lemma grow_loop_fresh:
  "valid_order ho \<Longrightarrow> fresh_pairs lonely st \<Longrightarrow>
   grow_loop ho endpts orientations lonely pairs st = Inr st' \<Longrightarrow> fresh_pairs lonely st'"
proof (induction pairs arbitrary: st)
  case Nil
  then show ?case by simp
next
  case (Cons pr rest)
  obtain new_pairs used where st: "st = (new_pairs, used)" by (cases st)
  from Cons.prems(3) obtain A B where AB: "iter_idx ho pr = [A, B]"
    by (auto simp: st split: list.splits)
  define cand_A where "cand_A = filter (\<lambda>r. r \<notin> used) (iter_idx ho (reds_adjacent_to endpts A lonely))"
  define cand_B where "cand_B = filter (\<lambda>r. r \<notin> used) (iter_idx ho (reds_adjacent_to endpts B lonely))"
  have it: "set (iter_idx ho (reds_adjacent_to endpts X lonely)) \<subseteq> lonely" for X
    using Cons.prems(1) reds_adjacent_to_finite[of endpts X lonely]
      reds_adjacent_to_subset[of endpts X lonely]
    by (simp add: valid_order_def)
  have sub: "set cand_A \<subseteq> lonely - used" "set cand_B \<subseteq> lonely - used"
    using it by (auto simp: cand_A_def cand_B_def)
  from Cons.prems(2) have "fresh_pairs lonely (new_pairs, used)" by (simp add: st)
  from pair_candidates_fresh[OF sub this]
  have fr: "fresh_pairs lonely (pair_candidates orientations cand_A cand_B (new_pairs, used))" .
  from Cons.prems(3) have "grow_loop ho endpts orientations lonely rest
      (pair_candidates orientations cand_A cand_B (new_pairs, used)) = Inr st'"
    by (simp add: st AB cand_A_def cand_B_def)
  from Cons.IH[OF Cons.prems(1) fr this] show ?case .
qed

lemma connector_loop_subset:
  "connector_loop ho endpts pairs us connector = Inr c \<Longrightarrow> c \<subseteq> connector \<union> set us"
  by (induction us arbitrary: connector) (auto split: sum.splits if_splits)

text \<open>What one continuing iteration adds.\<close>

lemma grower_step_cases:
  fixes ho endpts orientations sp
  defines "ungrouped \<equiv> {0..<length endpts} - \<Union> sp"
  obtains (raise1) e where
      "connector_loop ho endpts (iter_pairs ho sp) (iter_idx ho ungrouped) {} = Inl e"
      "grower_step ho endpts orientations (sp, None) = (sp, Some (Inl e))"
  | (complete) connector where
      "connector_loop ho endpts (iter_pairs ho sp) (iter_idx ho ungrouped) {} = Inr connector"
      "ungrouped - connector = {}"
      "grower_step ho endpts orientations (sp, None) = (sp, Some (Inr Complete))"
  | (raise2) connector e where
      "connector_loop ho endpts (iter_pairs ho sp) (iter_idx ho ungrouped) {} = Inr connector"
      "ungrouped - connector \<noteq> {}"
      "grow_loop ho endpts orientations (ungrouped - connector) (iter_pairs ho sp) ({}, {}) = Inl e"
      "grower_step ho endpts orientations (sp, None) = (sp, Some (Inl e))"
  | (stalled) connector used where
      "connector_loop ho endpts (iter_pairs ho sp) (iter_idx ho ungrouped) {} = Inr connector"
      "ungrouped - connector \<noteq> {}"
      "grow_loop ho endpts orientations (ungrouped - connector) (iter_pairs ho sp) ({}, {}) = Inr ({}, used)"
      "grower_step ho endpts orientations (sp, None) = (sp, Some (Inr Stalled))"
  | (grown) connector new_pairs used where
      "connector_loop ho endpts (iter_pairs ho sp) (iter_idx ho ungrouped) {} = Inr connector"
      "ungrouped - connector \<noteq> {}"
      "grow_loop ho endpts orientations (ungrouped - connector) (iter_pairs ho sp) ({}, {}) = Inr (new_pairs, used)"
      "new_pairs \<noteq> {}"
      "grower_step ho endpts orientations (sp, None) = (sp \<union> new_pairs, None)"
proof (cases "connector_loop ho endpts (iter_pairs ho sp) (iter_idx ho ungrouped) {}")
  case (Inl e)
  then show ?thesis
    using raise1[of e] by (simp add: grower_step_def ungrouped_def)
next
  case (Inr connector)
  note c = this
  show ?thesis
  proof (cases "ungrouped - connector = {}")
    case True
    then show ?thesis
      using complete[of connector] c by (simp add: grower_step_def ungrouped_def)
  next
    case False
    note ne = this
    show ?thesis
    proof (cases "grow_loop ho endpts orientations (ungrouped - connector) (iter_pairs ho sp) ({}, {})")
      case (Inl e)
      then show ?thesis
        using raise2[of connector e] c ne by (simp add: grower_step_def ungrouped_def)
    next
      case (Inr r)
      obtain new_pairs used where r: "r = (new_pairs, used)" by (cases r)
      show ?thesis
      proof (cases "new_pairs = {}")
        case True
        then show ?thesis
          using stalled[of connector used] c ne Inr r by (simp add: grower_step_def ungrouped_def)
      next
        case False
        then show ?thesis
          using grown[of connector new_pairs used] c ne Inr r by (simp add: grower_step_def ungrouped_def)
      qed
    qed
  qed
qed

lemma grower_step_continue:
  assumes "valid_order ho" and "grower_step ho endpts orientations (sp, None) = (sp', None)"
  shows "\<exists>new_pairs. sp' = sp \<union> new_pairs \<and> new_pairs \<noteq> {} \<and>
           (\<forall>p \<in> new_pairs. p \<noteq> {} \<and> p \<subseteq> {0..<length endpts} - \<Union> sp) \<and>
           (\<forall>p \<in> new_pairs. \<forall>q \<in> new_pairs. p \<noteq> q \<longrightarrow> p \<inter> q = {})"
proof (cases rule: grower_step_cases[of ho endpts sp orientations])
  case (grown connector new_pairs used)
  define lonely where "lonely = {0..<length endpts} - \<Union> sp - connector"
  have "fresh_pairs lonely ({}, {})" by (simp add: fresh_pairs_def)
  from grow_loop_fresh[OF assms(1) this grown(3)[folded lonely_def]]
  have fr: "fresh_pairs lonely (new_pairs, used)" .
  have sub: "lonely \<subseteq> {0..<length endpts} - \<Union> sp" by (auto simp: lonely_def)
  have 1: "sp' = sp \<union> new_pairs" using grown(5) assms(2) by simp
  have 2: "\<forall>p \<in> new_pairs. p \<noteq> {} \<and> p \<subseteq> {0..<length endpts} - \<Union> sp"
  proof
    fix p assume "p \<in> new_pairs"
    with fr have "p \<noteq> {}" "p \<subseteq> lonely" by (simp_all add: fresh_pairs_def)
    with sub show "p \<noteq> {} \<and> p \<subseteq> {0..<length endpts} - \<Union> sp" by simp
  qed
  have 3: "\<forall>p \<in> new_pairs. \<forall>q \<in> new_pairs. p \<noteq> q \<longrightarrow> p \<inter> q = {}"
    using fr by (simp add: fresh_pairs_def)
  show ?thesis
    by (intro exI[of _ new_pairs] conjI) (fact 1 grown(4) 2 3)+
qed (use assms(2) in simp_all)

lemma grower_step_keeps:
  "grower_step ho endpts orientations (sp, None) = (sp', Some e) \<Longrightarrow> sp' = sp"
  by (cases rule: grower_step_cases[of ho endpts sp orientations]) simp_all


lemma grower_step_measure:
  assumes "valid_order ho" and "snd st = None"
  shows "(case grower_step ho endpts orientations st of
            (sp', None) \<Rightarrow> Suc (card ({0..<length endpts} - \<Union> sp'))
          | (sp', Some e) \<Rightarrow> 0)
         < Suc (card ({0..<length endpts} - \<Union> (fst st)))"
proof -
  obtain sp where st: "st = (sp, None)" using assms(2) by (cases st) auto
  obtain sp' e where r: "grower_step ho endpts orientations (sp, None) = (sp', e)"
    by (cases "grower_step ho endpts orientations (sp, None)")
  show ?thesis
  proof (cases e)
    case None
    from grower_step_continue[OF assms(1) r[unfolded None]]
    obtain new_pairs where np: "sp' = sp \<union> new_pairs" "new_pairs \<noteq> {}"
      "\<forall>p \<in> new_pairs. p \<noteq> {} \<and> p \<subseteq> {0..<length endpts} - \<Union> sp" by blast
    define R where "R = {0..<length endpts}"
    from np(2) obtain p where p: "p \<in> new_pairs" by blast
    with np(3) have "p \<noteq> {}" and psub: "p \<subseteq> R - \<Union> sp" by (simp_all add: R_def)
    then obtain x where xp: "x \<in> p" by blast
    with psub have x: "x \<in> R - \<Union> sp" by (rule_tac subsetD)
    have "p \<in> sp'" using p np(1) by simp
    with xp have "x \<in> \<Union> sp'" by (rule_tac UnionI)
    then have nx: "x \<notin> R - \<Union> sp'" by simp
    have "sp \<subseteq> sp'" using np(1) by simp
    then have "\<Union> sp \<subseteq> \<Union> sp'" by (rule Union_mono)
    then have sub: "R - \<Union> sp' \<subseteq> R - \<Union> sp" by (rule Diff_mono[OF subset_refl])
    have "R - \<Union> sp' \<noteq> R - \<Union> sp" using x nx by metis
    with sub have "R - \<Union> sp' \<subset> R - \<Union> sp" by (rule psubsetI)
    moreover have "finite (R - \<Union> sp)" by (simp add: R_def)
    ultimately have "card (R - \<Union> sp') < card (R - \<Union> sp)"
      by (rule_tac psubset_card_mono)
    then have "card ({0..<length endpts} - \<Union> sp') < card ({0..<length endpts} - \<Union> sp)"
      by (simp add: R_def)
    then show ?thesis by (simp add: st r None)
  next
    case (Some a)
    then show ?thesis by (simp add: st r)
  qed
qed

text \<open>The loop ends for every input, with one of its three endings recorded.\<close>

lemma grower_terminates:
  assumes "valid_order ho"
  shows "\<exists>final e. grower ho endpts orientations seeds = Some (final, Some e)"
proof -
  let ?f = "\<lambda>st :: grower_state. case st of
      (sp, None) \<Rightarrow> Suc (card ({0..<length endpts} - \<Union> sp)) | (sp, Some e) \<Rightarrow> 0"
  have "\<exists>t. while_option (\<lambda>st. snd st = None) (grower_step ho endpts orientations) (seeds, None) = Some t"
  proof (rule measure_while_option_Some[where P = "\<lambda>_. True" and f = ?f])
    fix s :: grower_state
    assume "snd s = None"
    from grower_step_measure[OF assms this, of endpts orientations] this
    show "True \<and> ?f (grower_step ho endpts orientations s) < ?f s"
      by (cases s) (auto split: prod.splits option.splits)
  qed simp
  then obtain t where t: "grower ho endpts orientations seeds = Some t"
    by (auto simp: grower_def)
  then have "snd t \<noteq> None"
    using while_option_stop[of "\<lambda>st. snd st = None" "grower_step ho endpts orientations" "(seeds, None)" t]
    by (simp add: grower_def)
  with t show ?thesis by (cases t) auto
qed

lemma grower_step_overlap:
  assumes "valid_order ho" and "seeds_only_overlap seeds (fst st)" and "snd st = None"
  shows "seeds_only_overlap seeds (fst (grower_step ho endpts orientations st))"
proof -
  obtain sp where st: "st = (sp, None)" using assms(3) by (cases st) auto
  obtain sp' e where r: "grower_step ho endpts orientations (sp, None) = (sp', e)"
    by (cases "grower_step ho endpts orientations (sp, None)")
  show ?thesis
  proof (cases e)
    case (Some a)
    with r have "sp' = sp" by (auto dest: grower_step_keeps)
    with assms(2) show ?thesis by (simp add: st r)
  next
    case None
    from grower_step_continue[OF assms(1) r[unfolded None]]
    obtain new_pairs where np: "sp' = sp \<union> new_pairs"
      "\<forall>p \<in> new_pairs. p \<noteq> {} \<and> p \<subseteq> {0..<length endpts} - \<Union> sp"
      "\<forall>p \<in> new_pairs. \<forall>q \<in> new_pairs. p \<noteq> q \<longrightarrow> p \<inter> q = {}" by blast
    have old: "seeds \<subseteq> sp" "\<And>p q. p \<in> sp \<Longrightarrow> q \<in> sp \<Longrightarrow> p \<noteq> q \<Longrightarrow> p \<inter> q \<noteq> {} \<Longrightarrow> p \<in> seeds \<and> q \<in> seeds"
      using assms(2) by (auto simp: st seeds_only_overlap_def)
    have cross: "p \<inter> q = {}" if "p \<in> new_pairs" "q \<in> sp" for p q
    proof -
      from np(2) that(1) have "p \<subseteq> {0..<length endpts} - \<Union> sp" by blast
      with that(2) show ?thesis by blast
    qed
    have "seeds_only_overlap seeds (sp \<union> new_pairs)"
      unfolding seeds_only_overlap_def
    proof (intro conjI ballI impI)
      show "seeds \<subseteq> sp \<union> new_pairs" using old(1) by blast
    next
      fix p q assume pq: "p \<in> sp \<union> new_pairs" "q \<in> sp \<union> new_pairs" "p \<noteq> q \<and> p \<inter> q \<noteq> {}"
      consider "p \<in> sp" "q \<in> sp" | "p \<in> new_pairs" "q \<in> sp" | "p \<in> sp" "q \<in> new_pairs"
        | "p \<in> new_pairs" "q \<in> new_pairs" using pq(1,2) by blast
      then have both: "p \<in> seeds \<and> q \<in> seeds"
      proof cases
        case 1
        then show ?thesis using old(2) pq(3) by blast
      next
        case 2
        then show ?thesis using cross[of p q] pq(3) by blast
      next
        case 3
        then show ?thesis using cross[of q p] pq(3) by blast
      next
        case 4
        then show ?thesis using np(3) pq(3) by blast
      qed
      then show "p \<in> seeds" "q \<in> seeds" by simp_all
    qed
    then show ?thesis by (simp add: st r np(1))
  qed
qed

subsection \<open>Evaluating the examples\<close>

lemma linalg_norm_x: "linalg_norm (x, 0) = \<bar>x\<bar>" by (simp add: linalg_norm_def)
lemma linalg_norm_y: "linalg_norm (0, y) = \<bar>y\<bar>" by (simp add: linalg_norm_def)

lemmas geom_defs = intersect_ray_segment_def ray_update_def vsub_def vadd_def smul_def sdiv_def
  cross_2d_def dot_def EPS_def MAX_GAP_RATIO_def point_on_segment_def linalg_norm_x linalg_norm_y

lemma rand_par: "rand_points_from (lib_random example_lib) (lib_seed example_lib 42) three_parallel = (rp_par, 3)"
  by (simp add: example_lib_def three_parallel_def mt42_def rp_par_def)

lemma enum_par: "enumerate 0 three_parallel = [(0, ((0,0),(10,0))), (1, ((0,1),(10,1))), (2, ((0,2),(10,2)))]"
  by (simp add: three_parallel_def)

lemma nth_par: "three_parallel ! 0 = ((0,0),(10,0))" "three_parallel ! 1 = ((0,1),(10,1))"
  "three_parallel ! 2 = ((0,2),(10,2))" "three_parallel ! Suc 0 = ((0,1),(10,1))"
  by (simp_all add: three_parallel_def)

lemma cast_par:
  "cast_segment three_parallel rp_par 0 = Some (28797222912656345 / 4503599627370496, 1)"
  "cast_segment three_parallel rp_par (Suc 0) = Some (1126384279010575 / 4503599627370496, 2)"
  "cast_segment three_parallel rp_par 2 = Some (6193109678615635 / 2251799813685248, 1)"
  by (simp_all add: cast_segment_def cast_dir_def enum_par nth_par rp_par_def geom_defs)

lemma pairs_par: "pairs_dict three_parallel rp_par =
    [(0, (28797222912656345 / 4503599627370496, 1)),
     (1, (1126384279010575 / 4503599627370496, 2)),
     (2, (6193109678615635 / 2251799813685248, 1))]"
proof -
  have "[0..<length three_parallel] = [0, Suc 0, 2]" by (simp add: three_parallel_def upt_rec)
  then show ?thesis by (simp add: pairs_dict_def cast_par)
qed

lemma seed_par:
  "seed_pair three_parallel rp_par 0 (28797222912656345 / 4503599627370496, 1) = Some {0, 1}"
  "seed_pair three_parallel rp_par (Suc 0) (1126384279010575 / 4503599627370496, 2) = Some {1, 2}"
  "seed_pair three_parallel rp_par 2 (6193109678615635 / 2251799813685248, 1) = Some {2, 1}"
  by (simp_all add: seed_pair_def find_idxB_def enum_par nth_par rp_par_def geom_defs)

lemma seeds_par: "seed_pairs three_parallel rp_par = {{0, 1}, {1, 2}}"
  by (simp add: seed_pairs_def pairs_par seed_par insert_commute)

lemma while_option_step: "b s \<Longrightarrow> while_option b c (c s) = r \<Longrightarrow> while_option b c s = r"
  by (subst while_option_unfold) simp

lemma while_option_done: "\<not> b s \<Longrightarrow> while_option b c s = Some s"
  by (subst while_option_unfold) simp

lemma grower_step_complete:
  "connector_loop ho endpts (iter_pairs ho sp) (iter_idx ho ({0..<length endpts} - \<Union> sp)) {} = Inr connector
   \<Longrightarrow> {0..<length endpts} - \<Union> sp - connector = {}
   \<Longrightarrow> grower_step ho endpts os (sp, None) = (sp, Some (Inr Complete))"
  by (simp add: grower_step_def)

lemma grower_step_raise:
  "connector_loop ho endpts (iter_pairs ho sp) (iter_idx ho ({0..<length endpts} - \<Union> sp)) {} = Inl e
   \<Longrightarrow> grower_step ho endpts os (sp, None) = (sp, Some (Inl e))"
  by (simp add: grower_step_def)

lemma grower_step_grown:
  "connector_loop ho endpts (iter_pairs ho sp) (iter_idx ho ({0..<length endpts} - \<Union> sp)) {} = Inr connector
   \<Longrightarrow> {0..<length endpts} - \<Union> sp - connector \<noteq> {}
   \<Longrightarrow> grow_loop ho endpts os ({0..<length endpts} - \<Union> sp - connector) (iter_pairs ho sp) ({}, {})
       = Inr (new_pairs, used)
   \<Longrightarrow> new_pairs \<noteq> {}
   \<Longrightarrow> grower_step ho endpts os (sp, None) = (sp \<union> new_pairs, None)"
  by (simp add: grower_step_def)

lemma step_par: "grower_step sorted_order three_parallel os ({{0, 1}, {1, 2}}, None)
    = ({{0, 1}, {1, 2}}, Some (Inr Complete))"
proof -
  have U: "{0..<length three_parallel} - \<Union> {{0, 1}, {1, 2}} = {}"
    by (simp add: three_parallel_def atLeastLessThanSuc)
  show ?thesis
  proof (rule grower_step_complete[where connector = "{}"])
    show "connector_loop sorted_order three_parallel (iter_pairs sorted_order {{0, 1}, {1, 2}})
     (iter_idx sorted_order ({0..<length three_parallel} - \<Union> {{0, 1}, {1, 2}})) {} = Inr {}"
      unfolding U by (simp add: sorted_order_def)
    show "{0..<length three_parallel} - \<Union> {{0, 1}, {1, 2}} - {} = {}"
      unfolding U by simp
  qed
qed

lemma grower_par: "grower sorted_order three_parallel os {{0, 1}, {1, 2}}
    = Some ({{0, 1}, {1, 2}}, Some (Inr Complete))"
  unfolding grower_def
proof (rule while_option_step)
  show "snd ({{0, 1}, {1, 2}}, None :: (error + ending) option) = None" by simp
  show "while_option (\<lambda>st. snd st = None) (grower_step sorted_order three_parallel os)
     (grower_step sorted_order three_parallel os ({{0, 1}, {1, 2}}, None)) =
    Some ({{0, 1}, {1, 2}}, Some (Inr Complete))"
    unfolding step_par by (rule while_option_done) simp
qed

lemma stripes_par: "stripe_pairs_of example_lib three_parallel
    = (Some ({{0, 1}, {1, 2}}, Some (Inr Complete)), 3)"
proof -
  have "lib_order example_lib = sorted_order" by (simp add: example_lib_def)
  then show ?thesis
    by (simp only: stripe_pairs_of_def rand_par seeds_par grower_par Let_def prod.case)
qed

lemma sqrt_100: "sqrt 100 = 10"
  using real_sqrt_abs[of 10] by simp

lemma sqrt_25: "sqrt 25 = 5"
  using real_sqrt_abs[of 5] by simp

lemma linalg_norm_86: "linalg_norm (- 8, - 6) = 10" by (simp add: linalg_norm_def sqrt_100)
lemma linalg_norm_34: "linalg_norm (- 3, - 4) = 5" by (simp add: linalg_norm_def sqrt_25)

lemma rand_corner: "rand_points_from (lib_random example_lib) (lib_seed example_lib 42) corner3 = (rp_corner, 3)"
  by (simp add: example_lib_def corner3_def mt42_def rp_corner_def)

lemma enum_corner: "enumerate 0 corner3 = [(0, ((0, 0), (10, 0))), (1, ((8, 6), (0, 0))), (2, ((0, 0), (- 3, - 4)))]"
  by (simp add: corner3_def)

lemma nth_corner: "corner3 ! 0 = ((0, 0), (10, 0))" "corner3 ! Suc 0 = ((8, 6), (0, 0))"
  "corner3 ! 2 = ((0, 0), (- 3, - 4))"
  by (simp_all add: corner3_def)

lemma cast_corner0:
  "cast_segment corner3 rp_corner 0 = Some (28797222912656345 / 4503599627370496, 86391668737969035 / 18014398509481984)"
  by (simp add: cast_segment_def cast_dir_def enum_corner nth_corner rp_corner_def geom_defs Let_def)

lemma cast_corner1: "cast_segment corner3 rp_corner (Suc 0) = None"
  by (simp add: cast_segment_def cast_dir_def enum_corner nth_corner rp_corner_def geom_defs Let_def linalg_norm_86)

lemma cast_corner2: "cast_segment corner3 rp_corner 2 = None"
  by (simp add: cast_segment_def cast_dir_def enum_corner nth_corner rp_corner_def geom_defs Let_def linalg_norm_34)

lemma pairs_corner: "pairs_dict corner3 rp_corner =
    [(0, (28797222912656345 / 4503599627370496, 86391668737969035 / 18014398509481984))]"
proof -
  have "[0..<length corner3] = [0, Suc 0, 2]" by (simp add: corner3_def upt_rec)
  then show ?thesis by (simp add: pairs_dict_def cast_corner0 cast_corner1 cast_corner2)
qed

lemma seed_corner:
  "seed_pair corner3 rp_corner 0 (28797222912656345 / 4503599627370496, 86391668737969035 / 18014398509481984) = Some {0, 1}"
  by (simp add: seed_pair_def find_idxB_def enum_corner nth_corner rp_corner_def geom_defs Let_def)

lemma seeds_corner: "seed_pairs corner3 rp_corner = {{0, 1}}"
  by (simp add: seed_pairs_def pairs_corner seed_corner)


lemma is_parallel_refl: "is_parallel os i i"
  by (simp add: is_parallel_def ANG_TOL_def)

lemma Collect_mem_Int: "{j \<in> A. j \<in> B} = A \<inter> B"
  by auto

lemma round6_int: "round6 (of_int k) = of_int k"
proof -
  have "round_half_even (of_int (k * 1000000)) = k * 1000000"
    by (simp add: round_half_even_def Let_def del: of_int_mult)
  then show ?thesis by (simp add: round6_def)
qed

lemma qkey_corner:
  "qkey (0, 0) = (0, 0)" "qkey (10, 0) = (10, 0)" "qkey (8, 6) = (8, 6)" "qkey (- 3, - 4) = (- 3, - 4)"
  using round6_int[of 0] round6_int[of 10] round6_int[of 8] round6_int[of 6]
    round6_int[of "- 3"] round6_int[of "- 4"]
  by (simp_all add: qkey_def)

lemma reds_corner:
  "reds_adjacent_to corner3 0 {2} = {2}" "reds_adjacent_to corner3 1 {2} = {2}"
  by (auto simp: reds_adjacent_to_def nth_corner pt2segs_def enum_corner qkey_corner)

lemma step_corner1: "grower_step sorted_order corner3 os ({{0, 1}}, None) = ({{0, 1}} \<union> {{2}}, None)"
proof -
  have U: "{0..<length corner3} - \<Union> {{0, 1}} = {2}"
    by (auto simp: corner3_def)
  show ?thesis
  proof (rule grower_step_grown[where connector = "{}" and used = "{2}"])
    show "connector_loop sorted_order corner3 (iter_pairs sorted_order {{0, 1}})
     (iter_idx sorted_order ({0..<length corner3} - \<Union> {{0, 1}})) {} = Inr {}"
      unfolding U by (simp add: sorted_order_def nth_corner same_pt_def EPS_PT_def)
    show "{0..<length corner3} - \<Union> {{0, 1}} - {} \<noteq> {}"
      unfolding U by simp
    show "grow_loop sorted_order corner3 os ({0..<length corner3} - \<Union> {{0, 1}} - {})
     (iter_pairs sorted_order {{0, 1}}) ({}, {}) = Inr ({{2}}, {2})"
      unfolding U using reds_corner
      by (simp add: sorted_order_def is_parallel_refl)
    show "{{2::nat}} \<noteq> {}" by simp
  qed
qed

lemma step_corner2: "grower_step sorted_order corner3 os ({{0, 1}} \<union> {{2}}, None)
    = ({{0, 1}} \<union> {{2}}, Some (Inr Complete))"
proof -
  have U: "{0..<length corner3} - \<Union> ({{0, 1}} \<union> {{2}}) = {}"
    by (auto simp: corner3_def)
  show ?thesis
  proof (rule grower_step_complete[where connector = "{}"])
    show "connector_loop sorted_order corner3 (iter_pairs sorted_order ({{0, 1}} \<union> {{2}}))
     (iter_idx sorted_order ({0..<length corner3} - \<Union> ({{0, 1}} \<union> {{2}}))) {} = Inr {}"
      unfolding U by (simp add: sorted_order_def)
    show "{0..<length corner3} - \<Union> ({{0, 1}} \<union> {{2}}) - {} = {}"
      unfolding U by simp
  qed
qed

lemma grower_corner: "grower sorted_order corner3 os {{0, 1}}
    = Some ({{0, 1}, {2}}, Some (Inr Complete))"
proof -
  have "while_option (\<lambda>st. snd st = None) (grower_step sorted_order corner3 os) ({{0, 1}}, None)
      = Some ({{0, 1}} \<union> {{2}}, Some (Inr Complete))"
  proof (rule while_option_step)
    show "snd ({{0, 1}}, None :: (error + ending) option) = None" by simp
    show "while_option (\<lambda>st. snd st = None) (grower_step sorted_order corner3 os)
       (grower_step sorted_order corner3 os ({{0, 1}}, None)) =
      Some ({{0, 1}} \<union> {{2}}, Some (Inr Complete))"
      unfolding step_corner1
    proof (rule while_option_step)
      show "snd ({{0, 1}} \<union> {{2}}, None :: (error + ending) option) = None" by simp
      show "while_option (\<lambda>st. snd st = None) (grower_step sorted_order corner3 os)
         (grower_step sorted_order corner3 os ({{0, 1}} \<union> {{2}}, None)) =
        Some ({{0, 1}} \<union> {{2}}, Some (Inr Complete))"
        unfolding step_corner2 by (rule while_option_done) simp
    qed
  qed
  then show ?thesis by (simp add: grower_def insert_commute)
qed

lemma stripes_corner: "stripe_pairs_of example_lib corner3
    = (Some ({{0, 1}, {2}}, Some (Inr Complete)), 3)"
proof -
  have "lib_order example_lib = sorted_order" by (simp add: example_lib_def)
  then show ?thesis
    by (simp only: stripe_pairs_of_def rand_corner seeds_corner grower_corner Let_def prod.case)
qed

lemma skeleton_corner: "skeleton example_lib corner3 {{0, 1}, {2}} = Some (Inl ValueError)"
proof -
  have "lib_order example_lib = sorted_order" by (simp add: example_lib_def)
  then show ?thesis
    by (simp add: skeleton_def sorted_order_def Let_def split: prod.splits)
qed

lemma rand_far: "rand_points_from (lib_random example_lib) (lib_seed example_lib 42) corner3_far = (rp_far, 4)"
  by (simp add: example_lib_def corner3_far_def mt42_def rp_far_def rp_corner_def)

lemma enum_far: "enumerate 0 corner3_far = [(0, ((0, 0), (10, 0))), (1, ((8, 6), (0, 0))),
    (2, ((0, 0), (- 3, - 4))), (3, ((100, 100), (110, 100)))]"
  by (simp add: corner3_far_def)

lemma nth_far: "corner3_far ! 0 = ((0, 0), (10, 0))" "corner3_far ! Suc 0 = ((8, 6), (0, 0))"
  "corner3_far ! 2 = ((0, 0), (- 3, - 4))" "corner3_far ! 3 = ((100, 100), (110, 100))"
  by (simp_all add: corner3_far_def)

lemma cast_far0:
  "cast_segment corner3_far rp_far 0 = Some (28797222912656345 / 4503599627370496, 86391668737969035 / 18014398509481984)"
  by (simp add: cast_segment_def cast_dir_def enum_far nth_far rp_far_def rp_corner_def geom_defs Let_def)

lemma cast_far1: "cast_segment corner3_far rp_far (Suc 0) = None"
  by (simp add: cast_segment_def cast_dir_def enum_far nth_far rp_far_def rp_corner_def geom_defs Let_def linalg_norm_86)

lemma cast_far2: "cast_segment corner3_far rp_far 2 = None"
  by (simp add: cast_segment_def cast_dir_def enum_far nth_far rp_far_def rp_corner_def geom_defs Let_def linalg_norm_34)

lemma cast_far3: "cast_segment corner3_far rp_far 3 = None"
  by (simp add: cast_segment_def cast_dir_def enum_far nth_far rp_far_def rp_corner_def geom_defs Let_def)

lemma pairs_far: "pairs_dict corner3_far rp_far =
    [(0, (28797222912656345 / 4503599627370496, 86391668737969035 / 18014398509481984))]"
proof -
  have "[0..<length corner3_far] = [0, Suc 0, 2, 3]" by (simp add: corner3_far_def upt_rec)
  then show ?thesis by (simp add: pairs_dict_def cast_far0 cast_far1 cast_far2 cast_far3)
qed

lemma seed_far:
  "seed_pair corner3_far rp_far 0 (28797222912656345 / 4503599627370496, 86391668737969035 / 18014398509481984) = Some {0, 1}"
  by (simp add: seed_pair_def find_idxB_def enum_far nth_far rp_far_def rp_corner_def geom_defs Let_def)

lemma seeds_far: "seed_pairs corner3_far rp_far = {{0, 1}}"
  by (simp add: seed_pairs_def pairs_far seed_far)

lemma qkey_far: "qkey (100, 100) = (100, 100)" "qkey (110, 100) = (110, 100)"
  using round6_int[of 100] round6_int[of 110]
  by (simp_all add: qkey_def)

lemma reds_far:
  "reds_adjacent_to corner3_far 0 {2, 3} = {2}" "reds_adjacent_to corner3_far 1 {2, 3} = {2}"
  by (auto simp: reds_adjacent_to_def nth_far pt2segs_def enum_far qkey_corner qkey_far)

lemma step_far1: "grower_step sorted_order corner3_far os ({{0, 1}}, None) = ({{0, 1}} \<union> {{2}}, None)"
proof -
  have U: "{0..<length corner3_far} - \<Union> {{0, 1}} = {2, 3}"
    by (auto simp: corner3_far_def)
  show ?thesis
  proof (rule grower_step_grown[where connector = "{}" and used = "{2}"])
    show "connector_loop sorted_order corner3_far (iter_pairs sorted_order {{0, 1}})
     (iter_idx sorted_order ({0..<length corner3_far} - \<Union> {{0, 1}})) {} = Inr {}"
      unfolding U by (simp add: sorted_order_def nth_far same_pt_def EPS_PT_def)
    show "{0..<length corner3_far} - \<Union> {{0, 1}} - {} \<noteq> {}"
      unfolding U by simp
    show "grow_loop sorted_order corner3_far os ({0..<length corner3_far} - \<Union> {{0, 1}} - {})
     (iter_pairs sorted_order {{0, 1}}) ({}, {}) = Inr ({{2}}, {2})"
      unfolding U using reds_far
      by (simp add: sorted_order_def is_parallel_refl)
    show "{{2::nat}} \<noteq> {}" by simp
  qed
qed

lemma step_far2: "grower_step sorted_order corner3_far os ({{0, 1}} \<union> {{2}}, None)
    = ({{0, 1}} \<union> {{2}}, Some (Inl ValueError))"
proof -
  have U: "{0..<length corner3_far} - \<Union> ({{0, 1}} \<union> {{2}}) = {3}"
    by (auto simp: corner3_far_def)
  show ?thesis
  proof (rule grower_step_raise)
    show "connector_loop sorted_order corner3_far (iter_pairs sorted_order ({{0, 1}} \<union> {{2}}))
     (iter_idx sorted_order ({0..<length corner3_far} - \<Union> ({{0, 1}} \<union> {{2}}))) {} = Inl ValueError"
      unfolding U by (simp add: sorted_order_def nth_far same_pt_def EPS_PT_def)
  qed
qed

lemma grower_far: "grower sorted_order corner3_far os {{0, 1}}
    = Some ({{0, 1}, {2}}, Some (Inl ValueError))"
proof -
  have "while_option (\<lambda>st. snd st = None) (grower_step sorted_order corner3_far os) ({{0, 1}}, None)
      = Some ({{0, 1}} \<union> {{2}}, Some (Inl ValueError))"
  proof (rule while_option_step)
    show "snd ({{0, 1}}, None :: (error + ending) option) = None" by simp
    show "while_option (\<lambda>st. snd st = None) (grower_step sorted_order corner3_far os)
       (grower_step sorted_order corner3_far os ({{0, 1}}, None)) =
      Some ({{0, 1}} \<union> {{2}}, Some (Inl ValueError))"
      unfolding step_far1
    proof (rule while_option_step)
      show "snd ({{0, 1}} \<union> {{2}}, None :: (error + ending) option) = None" by simp
      show "while_option (\<lambda>st. snd st = None) (grower_step sorted_order corner3_far os)
         (grower_step sorted_order corner3_far os ({{0, 1}} \<union> {{2}}, None)) =
        Some ({{0, 1}} \<union> {{2}}, Some (Inl ValueError))"
        unfolding step_far2 by (rule while_option_done) simp
    qed
  qed
  then show ?thesis by (simp add: grower_def insert_commute)
qed

lemma stripes_far: "stripe_pairs_of example_lib corner3_far
    = (Some ({{0, 1}, {2}}, Some (Inl ValueError)), 4)"
proof -
  have "lib_order example_lib = sorted_order" by (simp add: example_lib_def)
  then show ?thesis
    by (simp only: stripe_pairs_of_def rand_far seeds_far grower_far Let_def prod.case)
qed

lemma example_fromstring:
  "lib_fromstring example_lib svg_corner = Inr tree_corner"
  "lib_fromstring example_lib svg_px = Inr tree_px"
  "lib_fromstring example_lib svg_one = Inr tree_one"
  "lib_fromstring example_lib svg_thin = Inr tree_thin"
  "lib_fromstring example_lib [] = Inl ParseError"
  "lib_fromstring example_lib svg_styled = Inr tree_styled"
  by (simp_all add: example_lib_def svg_corner_def svg_px_def svg_one_def svg_thin_def svg_styled_def)

lemma example_float:
  "lib_float example_lib ''0'' = Some 0" "lib_float example_lib ''1'' = Some 1"
  "lib_float example_lib ''2'' = Some 2" "lib_float example_lib ''6'' = Some 6"
  "lib_float example_lib ''8'' = Some 8" "lib_float example_lib ''10'' = Some 10"
  "lib_float example_lib ''-3'' = Some (- 3)" "lib_float example_lib ''-4'' = Some (- 4)"
  "lib_float example_lib ''2px'' = None" "lib_float example_lib ''stroke:#000'' = None"
  by (simp_all add: example_lib_def)

lemma sw_txt_plain:
  "sw_txt (Element t [] cs) = []"
  "sw_txt (Element t ((''stroke-width'', ''2'') # rest) cs) = ''2''"
  "sw_txt (Element t ((''stroke-width'', ''1'') # rest) cs) = ''1''"
  "sw_txt (Element t ((''stroke-width'', ''2px'') # rest) cs) = ''2px''"
  "sw_txt (Element t [(''style'', ''stroke:#000''), (''x1'', x1), (''y1'', y1), (''x2'', x2), (''y2'', y2)] cs)
     = ''stroke:#000''"
  by (simp_all add: sw_txt_def attrib_get_def)

lemma extract_thin: "extract_polylines example_lib svg_thin = Inr []"
  using example_fromstring(4) example_float(2)
  by (simp add: extract_polylines_def tree_thin_def stroke_w_def sw_txt_plain)

lemma extract_one:
  "extract_polylines (example_lib\<lparr>lib_polygonize := b\<rparr>) svg_one = Inr [[(0, 0), (10, 0)]]"
  using example_fromstring(3) example_float
  by (simp add: extract_polylines_def tree_one_def stroke_w_def sw_txt_plain tag_branch_def
      strip_ns_def attrib_get_def)

lemma extract_corner: "extract_polylines example_lib svg_corner
    = Inr [[(0, 0), (10, 0)], [(8, 6), (0, 0)], [(0, 0), (- 3, - 4)]]"
  using example_fromstring(1) example_float
  by (simp add: extract_polylines_def tree_corner_def stroke_w_def sw_txt_plain tag_branch_def
      strip_ns_def attrib_get_def)


text \<open>What remains of the pipeline for the single wall of \<open>svg_one\<close>, with any backend.\<close>

lemma grower_step_stalled:
  "connector_loop ho endpts (iter_pairs ho sp) (iter_idx ho ({0..<length endpts} - \<Union> sp)) {} = Inr connector
   \<Longrightarrow> {0..<length endpts} - \<Union> sp - connector \<noteq> {}
   \<Longrightarrow> grow_loop ho endpts os ({0..<length endpts} - \<Union> sp - connector) (iter_pairs ho sp) ({}, {})
       = Inr ({}, used)
   \<Longrightarrow> grower_step ho endpts os (sp, None) = (sp, Some (Inr Stalled))"
  by (simp add: grower_step_def)

lemma stripes_one:
  "stripe_pairs_of (example_lib\<lparr>lib_polygonize := b\<rparr>) [((0, 0), (10, 0))]
     = (Some ({}, Some (Inr Stalled)), 1)"
proof -
  have seeds: "seed_pairs [((0, 0), (10, 0))] rp = {}" for rp
    by (simp add: seed_pairs_def pairs_dict_def cast_segment_def cast_dir_def)
  have step: "grower_step sorted_order [((0, 0), (10, 0))] os ({}, None) = ({}, Some (Inr Stalled))" for os
    by (rule grower_step_stalled[where connector = "{}" and used = "{}"])
       (simp_all add: sorted_order_def)
  have "grower sorted_order [((0, 0), (10, 0))] os {} = Some ({}, Some (Inr Stalled))" for os
    unfolding grower_def
  proof (rule while_option_step)
    show "snd ({} :: nat set set, None :: (error + ending) option) = None" by simp
    show "while_option (\<lambda>st. snd st = None) (grower_step sorted_order [((0, 0), (10, 0))] os)
       (grower_step sorted_order [((0, 0), (10, 0))] os ({}, None)) = Some ({}, Some (Inr Stalled))"
      unfolding step by (rule while_option_done) simp
  qed
  then show ?thesis
    by (simp add: stripe_pairs_of_def example_lib_def seeds mt42_def)
qed

lemma skeleton_one: "skeleton (example_lib\<lparr>lib_polygonize := b\<rparr>) segs {} = Some (Inr [])"
  by (simp add: skeleton_def example_lib_def sorted_order_def median_def index_pairs_def weld_def)

lemma unified_one:
  "unified_links_of (example_lib\<lparr>lib_polygonize := b\<rparr>) [[(0, 0), (10, 0)]] = (Some (Inr []), 1)"
  by (simp add: unified_links_of_def segments_of_def stripes_one skeleton_one)

subsection \<open>Claims about the stripe pairs\<close>

lemma valid_sorted_order: "valid_order sorted_order"
  by (simp add: valid_order_def sorted_order_def)

lemma segments_of_lines:
  "segments_of [[a, b], [c, d], [e, f]] = [(a, b), (c, d), (e, f)]"
  "segments_of [[a, b], [c, d], [e, f], [g, h]] = [(a, b), (c, d), (e, f), (g, h)]"
  by (simp_all add: segments_of_def)

lemma pair_01_ne_12: "{0, 1} \<noteq> {1, 2::nat}"
proof
  assume h: "{0, 1} = {1, 2::nat}"
  have "(0::nat) \<in> {0, 1}" by simp
  then have "(0::nat) \<in> {1, 2}" unfolding h .
  then show False by simp
qed

lemma pair_2_ne_01: "{2} \<noteq> {0, 1::nat}"
proof
  assume h: "{2} = {0, 1::nat}"
  have "(0::nat) \<in> {0, 1}" by simp
  then have "(0::nat) \<in> {2}" unfolding h[symmetric] .
  then show False by simp
qed

lemma pair_2_notin: "{2} \<notin> {{0, 1::nat}}"
  using pair_2_ne_01 by simp

text \<open>
  Claim C6, as stated, fails: it says that after the Pair-Grower terminates every segment
  index appears in at most one stripe pair. For three parallel walls the Pair-Seeder pairs
  wall 0 with wall 1 and wall 1 with wall 2; the grower ends at once (no segment is left)
  and segment 1 is in both pairs of the final set.
\<close>

theorem shared_segment_counterexample:
  "fst (stripe_pairs_of example_lib
          (segments_of [[(0, 0), (10, 0)], [(0, 1), (10, 1)], [(0, 2), (10, 2)]]))
     = Some ({{0, 1}, {1, 2}}, Some (Inr Complete))
   \<and> (1::nat) \<in> {0, 1} \<and> (1::nat) \<in> {1, 2} \<and> {0, 1} \<noteq> {1, 2::nat}"
proof -
  have "segments_of [[(0, 0), (10, 0)], [(0, 1), (10, 1)], [(0, 2), (10, 2)]] = three_parallel"
    by (simp only: segments_of_lines three_parallel_def)
  then have "fst (stripe_pairs_of example_lib
          (segments_of [[(0, 0), (10, 0)], [(0, 1), (10, 1)], [(0, 2), (10, 2)]]))
     = Some ({{0, 1}, {1, 2}}, Some (Inr Complete))"
    by (simp only: stripes_par fst_conv)
  moreover have "(1::nat) \<in> {0, 1}" "(1::nat) \<in> {1, 2}" by simp_all
  ultimately show ?thesis using pair_01_ne_12 by (intro conjI)
qed

text \<open>
  Claim C6, amended. When the Pair-Grower has terminated, a stripe pair that the grower
  added shares no segment index with any other stripe pair of the final set: two different
  pairs of the final set have a common segment only if both are seed pairs. This holds for
  every iteration order of the hash sets that lists the elements of the set.
\<close>

theorem grower_added_pairs_disjoint:
  assumes "valid_order ho"
    and "grower ho endpts orientations seeds = Some (final, ended)"
    and "p \<in> final" and "q \<in> final" and "p \<noteq> q" and "p \<notin> seeds \<or> q \<notin> seeds"
  shows "p \<inter> q = {}"
proof -
  have "seeds_only_overlap seeds (fst (final, ended))"
  proof (rule while_option_rule[where P = "\<lambda>st. seeds_only_overlap seeds (fst st)"
        and b = "\<lambda>st. snd st = None" and c = "grower_step ho endpts orientations"
        and s = "(seeds, None)"])
    show "while_option (\<lambda>st. snd st = None) (grower_step ho endpts orientations) (seeds, None)
          = Some (final, ended)"
      using assms(2) by (simp add: grower_def)
    show "seeds_only_overlap seeds (fst (seeds, None))"
      by (simp add: seeds_only_overlap_def)
  qed (rule grower_step_overlap[OF assms(1)])
  then have "p \<noteq> q \<and> p \<inter> q \<noteq> {} \<longrightarrow> p \<in> seeds \<and> q \<in> seeds"
    using assms(3,4) by (simp add: seeds_only_overlap_def)
  with assms(5,6) show ?thesis by blast
qed

theorem grower_added_pairs_disjoint_witness:
  "valid_order sorted_order
   \<and> grower sorted_order corner3 (map orientation corner3) {{0, 1}}
       = Some ({{0, 1}, {2}}, Some (Inr Complete))
   \<and> {2} \<in> {{0, 1}, {2::nat}} \<and> {0, 1} \<in> {{0, 1}, {2::nat}} \<and> {2} \<noteq> {0, 1::nat}
   \<and> {2} \<notin> {{0, 1::nat}}
   \<and> {2} \<inter> {0, 1::nat} = {}"
proof -
  have 1: "{2} \<in> {{0, 1}, {2::nat}}" by simp
  have 2: "{0, 1} \<in> {{0, 1}, {2::nat}}" by simp
  note 3 = pair_2_ne_01
  note 4 = pair_2_notin
  from 4 have 5: "{2} \<notin> {{0, 1::nat}} \<or> {0, 1} \<notin> {{0, 1::nat}}" by (rule disjI1)
  have "{2} \<inter> {0, 1::nat} = {}"
    by (rule grower_added_pairs_disjoint[OF valid_sorted_order grower_corner 1 2 3 5])
  with valid_sorted_order grower_corner 1 2 3 4 show ?thesis by (intro conjI)
qed

text \<open>
  Claim C3: every stripe pair has exactly two distinct segment indices after seeding and
  after each grower iteration. The code breaks it. The grower adds \<open>frozenset({r1, r2})\<close>
  without checking \<open>r1 \<noteq> r2\<close>, and \<open>is_parallel(r, r)\<close> holds; a lonely segment adjacent to
  both members of a stripe pair is paired with itself. For three walls that meet in one
  corner the seed set is \<open>{{0, 1}}\<close> and the first grower iteration adds the one-element
  pair \<open>{2}\<close>; the unpacking \<open>idxA, idxB = tuple(pr)\<close> of the next stage then raises
  \<open>ValueError\<close>.
\<close>

theorem grower_adds_one_element_pair:
  "fst (stripe_pairs_of example_lib
          (segments_of [[(0, 0), (10, 0)], [(8, 6), (0, 0)], [(0, 0), (- 3, - 4)]]))
     = Some ({{0, 1}, {2}}, Some (Inr Complete))
   \<and> card {2::nat} = 1
   \<and> fst (unified_links_of example_lib [[(0, 0), (10, 0)], [(8, 6), (0, 0)], [(0, 0), (- 3, - 4)]])
     = Some (Inl ValueError)"
proof -
  have seg: "segments_of [[(0, 0), (10, 0)], [(8, 6), (0, 0)], [(0, 0), (- 3, - 4)]] = corner3"
    by (simp only: segments_of_lines corner3_def)
  have "unified_links_of example_lib [[(0, 0), (10, 0)], [(8, 6), (0, 0)], [(0, 0), (- 3, - 4)]]
     = (Some (Inl ValueError), 3)"
    by (simp only: unified_links_of_def seg stripes_corner skeleton_corner Let_def prod.case
        option.case sum.case ending.case)
  then have "fst (unified_links_of example_lib [[(0, 0), (10, 0)], [(8, 6), (0, 0)], [(0, 0), (- 3, - 4)]])
     = Some (Inl ValueError)"
    by (simp only: fst_conv)
  moreover have "fst (stripe_pairs_of example_lib
          (segments_of [[(0, 0), (10, 0)], [(8, 6), (0, 0)], [(0, 0), (- 3, - 4)]]))
     = Some ({{0, 1}, {2}}, Some (Inr Complete))"
    by (simp only: seg stripes_corner fst_conv)
  moreover have "card {2::nat} = 1" by simp
  ultimately show ?thesis by (intro conjI)
qed

text \<open>Seed pairs do have two distinct indices: the search for \<open>idxB\<close> skips \<open>idxA\<close>.\<close>

lemma find_idxB_other: "find_idxB segments idxA P1 = Some idxB \<Longrightarrow> idxB \<noteq> idxA"
  by (auto simp: find_idxB_def find_Some_iff)

lemma seed_pair_two_distinct:
  assumes "seed_pair segments rand_points idxA P1 = Some pr"
  shows "\<exists>idxB. find_idxB segments idxA P1 = Some idxB \<and> pr = {idxA, idxB} \<and> idxB \<noteq> idxA"
proof (cases "find_idxB segments idxA P1")
  case None
  with assms show ?thesis by (simp add: seed_pair_def)
next
  case (Some idxB)
  obtain x1 y1 x2 y2 where A: "segments ! idxA = ((x1, y1), (x2, y2))" by (metis surj_pair)
  obtain B1 B2 where B: "segments ! idxB = (B1, B2)" by (metis surj_pair)
  from assms have "pr = {idxA, idxB}"
    by (simp add: seed_pair_def Some A B Let_def split: if_splits)
  with find_idxB_other[OF Some] Some show ?thesis by blast
qed

text \<open>
  The indices in stripe pairs are positions of the segment list, so every \<open>endpts ! A\<close> of
  the model reads a segment, as \<open>endpts[A]\<close> does in the source.
\<close>

lemma pairs_dict_index: "(idx, P) \<in> set (pairs_dict segments rand_points) \<Longrightarrow> idx < length segments"
  by (auto simp: pairs_dict_def split: option.splits)

lemma find_idxB_index: "find_idxB segments idxA P1 = Some idxB \<Longrightarrow> idxB < length segments"
  by (auto simp: find_idxB_def find_Some_iff nth_enumerate_eq)

lemma seed_fold_in_range:
  "\<forall>x \<in> set xs. fst x < length segments \<Longrightarrow> \<Union> acc \<subseteq> {0..<length segments} \<Longrightarrow>
   \<Union> (fold (\<lambda>(idxA, P1) stripe_pairs.
             case seed_pair segments rand_points idxA P1 of
               None \<Rightarrow> stripe_pairs
             | Some pr \<Rightarrow> insert pr stripe_pairs) xs acc) \<subseteq> {0..<length segments}"
proof (induction xs arbitrary: acc)
  case Nil
  then show ?case by simp
next
  case (Cons x xs)
  obtain idxA P1 where x: "x = (idxA, P1)" by (cases x)
  with Cons.prems(1) have A: "idxA < length segments" by simp
  show ?case
  proof (cases "seed_pair segments rand_points idxA P1")
    case None
    with Cons show ?thesis by (simp add: x)
  next
    case (Some pr)
    from seed_pair_two_distinct[OF Some] obtain idxB where
      B: "find_idxB segments idxA P1 = Some idxB" and pr: "pr = {idxA, idxB}" by blast
    from find_idxB_index[OF B] A pr have "pr \<subseteq> {0..<length segments}" by simp
    with Cons.prems(2) have "\<Union> (insert pr acc) \<subseteq> {0..<length segments}" by auto
    from Cons.IH[OF _ this] Cons.prems(1) Some show ?thesis by (simp add: x)
  qed
qed

lemma seed_pairs_in_range: "\<Union> (seed_pairs segments rand_points) \<subseteq> {0..<length segments}"
  unfolding seed_pairs_def
  by (rule seed_fold_in_range) (auto dest: pairs_dict_index)

lemma grower_in_range:
  assumes "valid_order ho" and "\<Union> seeds \<subseteq> {0..<length endpts}"
    and "grower ho endpts orientations seeds = Some (final, ended)"
  shows "\<Union> final \<subseteq> {0..<length endpts}"
proof -
  have "\<Union> (fst (final, ended)) \<subseteq> {0..<length endpts}"
  proof (rule while_option_rule[where P = "\<lambda>st. \<Union> (fst st) \<subseteq> {0..<length endpts}"
        and b = "\<lambda>st. snd st = None" and c = "grower_step ho endpts orientations"
        and s = "(seeds, None)"])
    show "while_option (\<lambda>st. snd st = None) (grower_step ho endpts orientations) (seeds, None)
          = Some (final, ended)"
      using assms(3) by (simp add: grower_def)
    show "\<Union> (fst (seeds, None :: (error + ending) option)) \<subseteq> {0..<length endpts}"
      using assms(2) by simp
  next
    fix st :: grower_state
    assume inv: "\<Union> (fst st) \<subseteq> {0..<length endpts}" and run: "snd st = None"
    obtain sp where st: "st = (sp, None)" using run by (cases st) auto
    obtain sp' e where r: "grower_step ho endpts orientations (sp, None) = (sp', e)"
      by (cases "grower_step ho endpts orientations (sp, None)")
    show "\<Union> (fst (grower_step ho endpts orientations st)) \<subseteq> {0..<length endpts}"
    proof (cases e)
      case (Some a)
      with r have "sp' = sp" by (auto dest: grower_step_keeps)
      with inv show ?thesis by (simp add: st r)
    next
      case None
      from grower_step_continue[OF assms(1) r[unfolded None]]
      obtain new_pairs where np: "sp' = sp \<union> new_pairs"
        "\<forall>p \<in> new_pairs. p \<noteq> {} \<and> p \<subseteq> {0..<length endpts} - \<Union> sp" by blast
      then have "\<Union> new_pairs \<subseteq> {0..<length endpts}" by blast
      with inv np(1) show ?thesis by (simp add: st r)
    qed
  qed
  then show ?thesis by simp
qed

subsection \<open>Flattener\<close>

text \<open>
  Claim C5, as stated, fails: it says that the Flattener drops zero-length consecutive
  point pairs, so that every segment has length \<open>> 0\<close>. The comprehension keeps every
  consecutive pair; a polyline that repeats a point gives a segment with coincident
  endpoints and length \<open>0\<close>.
\<close>

theorem zero_length_segment_counterexample:
  "segments_of [[(0, 0), (0, 0), (1, 0)]] = [((0, 0), (0, 0)), ((0, 0), (1, 0))]
   \<and> seg_length ((0, 0), (0, 0)) = 0"
  by (simp add: segments_of_def seg_length_def)

lemma zip_butlast_tl_nth:
  assumes "Suc i < length poly"
  shows "zip (butlast poly) (tl poly) ! i = (poly ! i, poly ! Suc i)"
    and "i < length (zip (butlast poly) (tl poly))"
  using assms by (simp_all add: nth_butlast nth_tl)

text \<open>
  Claim C5, amended. The Flattener emits one segment for every consecutive point pair of
  every polyline and drops none, zero-length pairs included: a polyline of \<open>n\<close> points
  contributes \<open>n - 1\<close> segments (none when it is empty), and the pair of the points at
  positions \<open>i\<close> and \<open>i + 1\<close> of a polyline is among the segments.
\<close>

theorem segments_of_all_consecutive_pairs:
  "length (segments_of thick_polylines) = sum_list (map (\<lambda>poly. length poly - 1) thick_polylines)
   \<and> (\<forall>poly \<in> set thick_polylines. \<forall>i. Suc i < length poly \<longrightarrow>
         (poly ! i, poly ! Suc i) \<in> set (segments_of thick_polylines))"
proof
  show "length (segments_of thick_polylines)
      = sum_list (map (\<lambda>poly. length poly - 1) thick_polylines)"
    by (induction thick_polylines) (simp_all add: segments_of_def)
next
  show "\<forall>poly \<in> set thick_polylines. \<forall>i. Suc i < length poly \<longrightarrow>
         (poly ! i, poly ! Suc i) \<in> set (segments_of thick_polylines)"
  proof (intro ballI allI impI)
    fix poly i assume poly: "poly \<in> set thick_polylines" and i: "Suc i < length poly"
    from zip_butlast_tl_nth[OF i]
    have "(poly ! i, poly ! Suc i) \<in> set (zip (butlast poly) (tl poly))"
      by (metis nth_mem)
    with poly show "(poly ! i, poly ! Suc i) \<in> set (segments_of thick_polylines)"
      by (auto simp: segments_of_def)
  qed
qed

theorem segments_of_all_consecutive_pairs_witness:
  "length (segments_of [[(0, 0), (0, 0), (1, 0)]]) = 2
   \<and> ((0, 0), (0, 0)) \<in> set (segments_of [[(0, 0), (0, 0), (1, 0)]])"
proof -
  let ?poly = "[(0, 0), (0, 0), (1, 0)] :: point list"
  from segments_of_all_consecutive_pairs[of "[?poly]"]
  have len: "length (segments_of [?poly]) = sum_list (map (\<lambda>poly. length poly - 1) [?poly])"
    and mem: "\<forall>poly \<in> set [?poly]. \<forall>i. Suc i < length poly \<longrightarrow>
         (poly ! i, poly ! Suc i) \<in> set (segments_of [?poly])"
    by blast+
  have "Suc 0 < length ?poly" by simp
  with mem have "(?poly ! 0, ?poly ! Suc 0) \<in> set (segments_of [?poly])"
    by (metis list.set_intros(1))
  then have "((0, 0), (0, 0)) \<in> set (segments_of [?poly])" by simp
  with len show ?thesis by simp
qed

text \<open>
  Claim C8: the Pair-Grower loop terminates after finitely many iterations, ending either
  with \<open>lonely\<close> empty or with no new pair added. The loop does end for every input
  (lemma \<open>grower_terminates\<close>), but it has a third ending that the code does not intend: once a
  one-element pair is in the set (the defect shown for claim C3), the unpacking
  \<open>A, B = tuple(pair)\<close> inside the loop raises \<open>ValueError\<close>. With a fourth, far wall the
  corner example leaves the loop this way in its second iteration.
\<close>

theorem grower_leaves_loop_by_exception:
  "fst (stripe_pairs_of example_lib
          (segments_of [[(0, 0), (10, 0)], [(8, 6), (0, 0)], [(0, 0), (- 3, - 4)],
                        [(100, 100), (110, 100)]]))
     = Some ({{0, 1}, {2}}, Some (Inl ValueError))"
proof -
  have "segments_of [[(0, 0), (10, 0)], [(8, 6), (0, 0)], [(0, 0), (- 3, - 4)],
                     [(100, 100), (110, 100)]] = corner3_far"
    by (simp only: segments_of_lines corner3_far_def)
  then show ?thesis
    by (simp only: stripes_far fst_conv)
qed

subsection \<open>Claims about the entry point\<close>

text \<open>
  Claim C9: identify never raises, also for elements whose stroke width cannot be parsed.
  The code breaks it: \<open>float(sw_txt or 1.0)\<close> is outside the \<open>try\<close> block, which catches
  \<open>IndexError\<close> only, so the \<open>ValueError\<close> of \<open>float\<close> reaches the caller of \<open>identify\<close>.
  The theorem takes any library whose \<open>ET.fromstring\<close> builds the tree of the document
  \<open>svg_px\<close> and whose \<open>float\<close> rejects \<open>2px\<close>.
\<close>

theorem unparsable_stroke_width_raises:
  assumes "lib_fromstring lib svg_text = Inr tree_px"
    and "lib_float lib ''2px'' = None"
  shows "identify lib g svg_text = (Some (Inl ValueError), g)"
proof -
  have "extract_loop lib (3 / 2) (iter tree_px) = Inl ValueError"
    using assms(2) by (simp add: tree_px_def stroke_w_def sw_txt_plain)
  then have "extract_polylines lib svg_text = Inl ValueError"
    using assms(1) by (simp add: extract_polylines_def)
  then show ?thesis by (simp add: identify_def)
qed

theorem unparsable_stroke_width_raises_witness:
  "lib_fromstring example_lib svg_px = Inr tree_px \<and> lib_float example_lib ''2px'' = None
   \<and> identify example_lib 0 svg_px = (Some (Inl ValueError), 0)"
  using unparsable_stroke_width_raises[OF example_fromstring(2) example_float(9), of 0]
    example_fromstring(2) example_float(9)
  by (intro conjI)

text \<open>
  The two paths of claim C4 that do return the empty list: \<open>ET.fromstring\<close> raises
  \<open>ParseError\<close>, or the extraction returns no polyline. Any other exception of the parser
  reaches the caller.
\<close>

lemma identify_empty_on_parse_error:
  "lib_fromstring lib svg_text = Inl ParseError \<Longrightarrow> identify lib g svg_text = (Some (Inr []), g)"
  by (simp add: identify_def extract_polylines_def)

lemma identify_empty_on_empty_extraction:
  "extract_polylines lib svg_text = Inr [] \<Longrightarrow> identify lib g svg_text = (Some (Inr []), g)"
  by (simp add: identify_def)

lemma identify_empty_examples:
  "identify example_lib 0 [] = (Some (Inr []), 0)"
  "identify example_lib 0 svg_thin = (Some (Inr []), 0)"
  using identify_empty_on_parse_error[OF example_fromstring(5)]
    identify_empty_on_empty_extraction[OF extract_thin]
  by simp_all

lemma parser_exception_reaches_caller:
  "lib_fromstring lib svg_text = Inl e \<Longrightarrow> e \<noteq> ParseError \<Longrightarrow>
   identify lib g svg_text = (Some (Inl e), g)"
  by (simp add: identify_def extract_polylines_def)

text \<open>
  Claim C4: \<open>identify\<close> returns the empty room list whenever the input cannot be parsed as
  SVG or yields no thick polylines. The code breaks it. The document \<open>svg_styled\<close> has one
  line and no stroke width at all, so it has no thick polyline; its \<open>style\<close> attribute
  becomes \<open>sw_txt\<close>, \<open>float\<close> raises \<open>ValueError\<close> outside the \<open>try\<close> block, and \<open>identify\<close>
  raises instead of returning the empty list. The theorem takes any library whose
  \<open>ET.fromstring\<close> builds the tree of that document and whose \<open>float\<close> rejects
  \<open>stroke:#000\<close>.
\<close>

theorem thin_styled_line_raises:
  assumes "lib_fromstring lib svg_text = Inr tree_styled"
    and "lib_float lib ''stroke:#000'' = None"
  shows "identify lib g svg_text = (Some (Inl ValueError), g)"
proof -
  have "extract_loop lib (3 / 2) (iter tree_styled) = Inl ValueError"
    using assms(2) by (simp add: tree_styled_def stroke_w_def sw_txt_plain)
  then have "extract_polylines lib svg_text = Inl ValueError"
    using assms(1) by (simp add: extract_polylines_def)
  then show ?thesis by (simp add: identify_def)
qed

theorem thin_styled_line_raises_witness:
  "lib_fromstring example_lib svg_styled = Inr tree_styled
   \<and> lib_float example_lib ''stroke:#000'' = None
   \<and> identify example_lib 0 svg_styled = (Some (Inl ValueError), 0)"
  using thin_styled_line_raises[OF example_fromstring(6) example_float(10), of 0]
    example_fromstring(6) example_float(10)
  by (intro conjI)

lemma identify_corner: "identify example_lib g svg_corner = (Some (Inl ValueError), 3)"
proof -
  have "unified_links_of example_lib [[(0, 0), (10, 0)], [(8, 6), (0, 0)], [(0, 0), (- 3, - 4)]]
     = (Some (Inl ValueError), 3)"
    by (simp only: unified_links_of_def segments_of_lines corner3_def[symmetric] stripes_corner
        skeleton_corner Let_def prod.case option.case sum.case ending.case)
  then show ?thesis by (simp add: identify_def extract_corner)
qed

lemma identify_any_generator: "fst (identify lib g svg_text) = fst (identify lib g' svg_text)"
  by (simp add: identify_def split: sum.splits prod.splits option.splits)

text \<open>
  Claim C1. Two invocations of \<open>identify\<close> in the same process, with the same input, give
  the same result: the second starts from the state in which the first left the global
  random generator, and \<open>random.seed(42)\<close> makes the result independent of that state.
\<close>

theorem identify_twice_same_result:
  assumes "identify lib g svg_text = (r1, g1)" and "identify lib g1 svg_text = (r2, g2)"
  shows "r1 = r2"
  using assms identify_any_generator[of lib g svg_text g1] by simp

theorem identify_twice_same_result_witness:
  "identify example_lib 0 svg_corner = (Some (Inl ValueError), 3)
   \<and> identify example_lib 3 svg_corner = (Some (Inl ValueError), 3)"
proof -
  obtain r2 g2 where 2: "identify example_lib 3 svg_corner = (r2, g2)" by (metis surj_pair)
  from identify_twice_same_result[OF identify_corner[of 0] 2] have "r2 = Some (Inl ValueError)" by simp
  moreover have "g2 = 3" using 2 identify_corner[of 3] by simp
  ultimately show ?thesis using 2 identify_corner[of 0] by simp
qed

text \<open>
  Claim C10. When Shapely cannot be imported, \<open>identify\<close> returns the empty room list for
  every input that reaches the polygonisation stage, that is, whose polylines are not
  empty and whose earlier stages deliver unified links.
\<close>

theorem no_backend_empty_list:
  assumes "lib_polygonize lib = None"
    and "extract_polylines lib svg_text = Inr thick_polylines" and "thick_polylines \<noteq> []"
    and "unified_links_of lib thick_polylines = (Some (Inr unified_links), g1)"
  shows "identify lib g svg_text = (Some (Inr []), g1)"
  using assms by (simp add: identify_def polygonise_stage_def)

theorem no_backend_empty_list_witness:
  "lib_polygonize example_lib = None
   \<and> extract_polylines example_lib svg_one = Inr [[(0, 0), (10, 0)]]
   \<and> unified_links_of example_lib [[(0, 0), (10, 0)]] = (Some (Inr []), 1)
   \<and> identify example_lib 0 svg_one = (Some (Inr []), 1)"
proof -
  have e: "example_lib\<lparr>lib_polygonize := None\<rparr> = example_lib" by (simp add: example_lib_def)
  have 1: "lib_polygonize example_lib = None" by (simp add: example_lib_def)
  have 2: "extract_polylines example_lib svg_one = Inr [[(0, 0), (10, 0)]]"
    using extract_one[of None] by (simp only: e)
  have 3: "[[(0, 0), (10, 0)]] \<noteq> ([] :: point list list)" by simp
  have 4: "unified_links_of example_lib [[(0, 0), (10, 0)]] = (Some (Inr []), 1)"
    using unified_one[of None] by (simp only: e)
  from no_backend_empty_list[OF 1 2 3 4, of 0] 1 2 4 show ?thesis by (intro conjI)
qed

lemma room_of_extent:
  assumes "polygon_contract poly" and "\<not> area poly < 1 / 1000" and "bbox (room_of poly) = (x, y, w, h)"
  shows "w > 0 \<and> h > 0 \<and> w * h \<ge> 1 / 1000"
proof -
  obtain minx miny maxx maxy where b: "bounds poly = (minx, miny, maxx, maxy)"
    by (metis prod_cases4)
  with assms(3) have wh: "w = maxx - minx" "h = maxy - miny" by (simp_all add: room_of_def)
  from assms(1) b wh have nn: "0 \<le> w" "0 \<le> h" and le: "area poly \<le> w * h"
    by (simp_all add: polygon_contract_def)
  from assms(2) le have big: "1 / 1000 \<le> w * h" by simp
  then have pos: "0 < w * h" by simp
  have "w \<noteq> 0" "h \<noteq> 0" using pos by auto
  with nn big show ?thesis by simp
qed

text \<open>
  Claim C2. Every room that \<open>identify\<close> emits has width \<open>> 0\<close>, height \<open>> 0\<close> and
  width times height at least \<open>1e-3\<close>. The code tests the area of the polygon, not of its
  bounding box; the claim follows for every backend whose valid polygons have ordered
  bounds and an area that does not exceed that of their bounding box.
\<close>

theorem rooms_have_positive_extent:
  assumes "backend_contract (lib_polygonize lib)"
    and "identify lib g svg_text = (Some (Inr rooms), g1)"
    and "r \<in> set rooms" and "bbox r = (x, y, w, h)"
  shows "w > 0 \<and> h > 0 \<and> w * h \<ge> 1 / 1000"
proof -
  from assms(2,3) obtain unified_links where
    "r \<in> set (polygonise_stage (lib_polygonize lib) unified_links)"
    by (auto simp: identify_def split: sum.splits if_splits prod.splits option.splits)
  then have "\<exists>polygonize poly. lib_polygonize lib = Some polygonize
      \<and> poly \<in> set (polygonize (filter (\<lambda>(P, Q). P \<noteq> Q) unified_links))
      \<and> is_valid poly \<and> \<not> area poly < 1 / 1000 \<and> r = room_of poly"
  proof (cases "lib_polygonize lib")
    case None
    then show ?thesis using \<open>r \<in> set (polygonise_stage (lib_polygonize lib) unified_links)\<close>
      by (simp add: polygonise_stage_def)
  next
    case (Some polygonize)
    with \<open>r \<in> set (polygonise_stage (lib_polygonize lib) unified_links)\<close>
    have "r \<in> room_of ` {poly \<in> set (polygonize (filter (\<lambda>(P, Q). P \<noteq> Q) unified_links)).
        is_valid poly \<and> \<not> area poly < 1 / 1000}"
      by (simp add: polygonise_stage_def del: divide_less_eq_numeral1 less_divide_eq_numeral1)
    with Some show ?thesis by blast
  qed
  then obtain polygonize poly where p: "lib_polygonize lib = Some polygonize"
    "poly \<in> set (polygonize (filter (\<lambda>(P, Q). P \<noteq> Q) unified_links))"
    "is_valid poly" "\<not> area poly < 1 / 1000" "r = room_of poly"
    by blast
  from assms(1) p(1,2,3) have "polygon_contract poly"
    by (auto simp: backend_contract_def)
  from room_of_extent[OF this p(4)] assms(4) p(5) show ?thesis by simp
qed

theorem rooms_have_positive_extent_witness:
  "backend_contract (lib_polygonize (example_lib\<lparr>lib_polygonize := Some square_backend\<rparr>))
   \<and> identify (example_lib\<lparr>lib_polygonize := Some square_backend\<rparr>) 0 svg_one
       = (Some (Inr [\<lparr>bbox = (0, 0, 10, 10)\<rparr>]), 1)
   \<and> (10::real) > 0 \<and> (10::real) * 10 \<ge> 1 / 1000"
proof -
  let ?lib = "example_lib\<lparr>lib_polygonize := Some square_backend\<rparr>"
  have 1: "backend_contract (lib_polygonize ?lib)"
    by (simp add: backend_contract_def square_backend_def polygon_contract_def)
  have 2: "identify ?lib 0 svg_one = (Some (Inr [\<lparr>bbox = (0, 0, 10, 10)\<rparr>]), 1)"
    by (simp add: identify_def extract_one unified_one polygonise_stage_def square_backend_def
        room_of_def)
  have 3: "\<lparr>bbox = (0, 0, 10, 10)\<rparr> \<in> set [\<lparr>bbox = (0, 0, 10, 10 :: real)\<rparr>]" by simp
  have 4: "bbox \<lparr>bbox = (0, 0, 10, 10 :: real)\<rparr> = (0, 0, 10, 10)" by simp
  from rooms_have_positive_extent[OF 1 2 3 4] have "(10::real) > 0 \<and> (10::real) * 10 \<ge> 1 / 1000"
    by simp
  with 1 2 show ?thesis by (intro conjI) simp_all
qed


end
